theory Spec2Isabelle
  imports Complex_Main "HOL-Library.Sublist" "HOL-Library.Log_Nat"
begin

section \<open>The data model of the printer\<close>

text \<open>
  The embedding follows \<^verbatim>\<open>packages/postcss-linaria/src/stringify.ts\<close>.
  A JavaScript string is a \<^typ>\<open>string\<close>: a list of code units, here the ones below 256.
  The two characters the escaping wrapper looks for are named.
\<close>

definition backslash :: char where
  "backslash = CHR 0x5C"

definition backtick :: char where
  "backtick = CHR 0x60"

text \<open>
  The \<^verbatim>\<open>type\<close> field of a PostCSS node (\<^verbatim>\<open>AnyNode\<close>), and the third argument
  of a \<^verbatim>\<open>Builder\<close>.
\<close>

datatype node_type = Root | Document | Rule | Decl | Comment | AtRule

datatype boundary = Start | End

text \<open>
  \<^verbatim>\<open>node.source\<close> is optional; when it is there, \<^verbatim>\<open>input.css\<close> is the text the parser
  was given.
\<close>

record input =
  css :: string

record source =
  input :: input

text \<open>
  A value stored in \<^verbatim>\<open>raws\<close>: a text, or one of \<^verbatim>\<open>undefined\<close> and \<^verbatim>\<open>null\<close>. \<open>ToString\<close> is
  the conversion a template literal \<^verbatim>\<open>`${v}`\<close> applies.
\<close>

datatype jsval = JUndefined | JNull | JString string

fun ToString :: "jsval \<Rightarrow> string" where
  "ToString JUndefined = ''undefined''"
| "ToString JNull = ''null''"
| "ToString (JString t) = t"

text \<open>
  A node carries the fields the handlers read (\<open>ntype\<close>, \<open>ntext\<close> and
  \<open>nprop\<close> are \<^verbatim>\<open>type\<close>, \<^verbatim>\<open>text\<close> and \<^verbatim>\<open>prop\<close>).
  \<open>raw_values\<close> is the object \<^verbatim>\<open>raws\<close>: it maps the name of an own property to its
  value, and a name that is no own property to \<open>None\<close>. The expression table
  \<^verbatim>\<open>raws.linariaTemplateExpressions\<close> is not such a value, it is kept apart (see the
  handlers).
\<close>

datatype node = Node
  (ntype: node_type)
  (raw_values: "string \<Rightarrow> jsval option")
  (ntext: string)
  (nprop: string)
  (important: bool)
  (source: "source option")
  (nodes: "node list")

text \<open>
  \<^verbatim>\<open>node.raws.k\<close> as \<^verbatim>\<open>&&\<close>, \<^verbatim>\<open>||\<close>, \<^verbatim>\<open>??\<close> and \<^verbatim>\<open>if\<close> read it: the text of the slot, and
  \<open>None\<close> when the slot is missing or holds \<^verbatim>\<open>undefined\<close> or \<^verbatim>\<open>null\<close>; these reads do
  not tell the three apart.
\<close>

definition raws :: "node \<Rightarrow> string \<Rightarrow> string option" where
  "raws node k = (case raw_values node k of Some (JString t) \<Rightarrow> Some t | _ \<Rightarrow> None)"

section \<open>The escaping wrapper\<close>

text \<open>
  \<^verbatim>\<open>str.replace(/c/g, r)\<close> for a pattern that is one literal character \<open>c\<close> and a
  replacement \<open>r\<close> without \<^verbatim>\<open>$\<close>: every occurrence of \<open>c\<close>, left to right, becomes \<open>r\<close>.
\<close>

fun replace_all :: "char \<Rightarrow> string \<Rightarrow> string \<Rightarrow> string" where
  "replace_all c r [] = []"
| "replace_all c r (x # xs) = (if x = c then r @ replace_all c r xs else x # replace_all c r xs)"

text \<open>
  \<^verbatim>\<open>str.replace(/\\/g, '\\\\').replace(/`/g, '\\`')\<close>: two passes, backslashes first.
\<close>

definition escape :: "string \<Rightarrow> string" where
  "escape str = replace_all backtick [backslash, backtick] (replace_all backslash [backslash, backslash] str)"

text \<open>
  The constructor wraps the caller's \<^verbatim>\<open>builder\<close>. A builder is any effect on the caller's
  state \<open>'s\<close>, so it is a state transformer taking the text, the optional node and the
  optional boundary mark.
\<close>

type_synonym 's builder = "string \<Rightarrow> node option \<Rightarrow> boundary option \<Rightarrow> 's \<Rightarrow> 's"

definition wrappedBuilder :: "'s builder \<Rightarrow> 's builder" where
  "wrappedBuilder builder str node type =
     (if node = None \<or> map_option ntype node = Some Root
      then builder str node type
      else builder (escape str) node type)"

text \<open>
  The builder of the examples records every call it receives, in order.
\<close>

type_synonym fragment = "string \<times> node option \<times> boundary option"

definition record_call :: "fragment list builder" where
  "record_call str node type calls = calls @ [(str, node, type)]"

text \<open>What one character becomes when both passes are read as a single pass.\<close>

definition escape_char :: "char \<Rightarrow> string" where
  "escape_char x =
     (if x = backslash then [backslash, backslash]
      else if x = backtick then [backslash, backtick]
      else [x])"

section \<open>JavaScript string operations used by the printer\<close>

text \<open>
  \<^verbatim>\<open>s.includes(t)\<close>: \<open>t\<close> occurs in \<open>s\<close> as a contiguous run; the empty \<open>t\<close> always does.
\<close>

fun js_includes :: "string \<Rightarrow> string \<Rightarrow> bool" where
  "js_includes [] t = (t = [])"
| "js_includes (c # cs) t = (prefix t (c # cs) \<or> js_includes cs t)"

text \<open>
  \<^verbatim>\<open>s.split(sep)\<close> for a string separator and no limit. With a non-empty separator
  the string is cut at each occurrence found from left to right, the search resuming
  right after the previous occurrence; \<open>cur\<close> is the piece collected since then. With the
  empty separator the result is the list of the code units.
\<close>

function split_from :: "string \<Rightarrow> string \<Rightarrow> string \<Rightarrow> string list" where
  "split_from sep cur [] = [cur]"
| "split_from sep cur (c # cs) =
     (if sep \<noteq> [] \<and> prefix sep (c # cs)
      then cur # split_from sep [] (drop (length sep) (c # cs))
      else split_from sep (cur @ [c]) cs)"
  by pat_completeness auto
termination
  by (relation "measure (\<lambda>(sep, cur, s). length s)") auto

definition js_split :: "string \<Rightarrow> string \<Rightarrow> string list" where
  "js_split s sep = (if sep = [] then map (\<lambda>c. [c]) s else split_from sep [] s)"

text \<open>\<^verbatim>\<open>xs.join(sep)\<close> for an array of strings.\<close>

fun js_join :: "string list \<Rightarrow> string \<Rightarrow> string" where
  "js_join [] sep = []"
| "js_join [x] sep = x"
| "js_join (x # y # ys) sep = x @ sep @ js_join (y # ys) sep"

text \<open>
  The array destructuring \<^verbatim>\<open>const [, x] = xs\<close>: the element at index 1, or
  \<^verbatim>\<open>undefined\<close> (\<open>None\<close>) when the array is shorter.
\<close>

definition second :: "string list \<Rightarrow> string option" where
  "second xs = (case xs of _ # x # _ \<Rightarrow> Some x | _ \<Rightarrow> None)"

section \<open>JavaScript's Number conversion\<close>

text \<open>
  A Number value: \<^verbatim>\<open>NaN\<close>, the infinities, or a finite double given by its rational
  value. The two zeros are one value here: neither \<^verbatim>\<open>Number.isNaN\<close> nor the conversion of an
  index to a property key tells them apart.
\<close>

datatype jsnum = NaN | PosInfinity | NegInfinity | Finite rat

text \<open>
  \<^verbatim>\<open>StrWhiteSpaceChar\<close> of the language standard, for code units below 256: tab, line
  feed, vertical tab, form feed, carriage return, space and no-break space.
\<close>

definition is_StrWhiteSpaceChar :: "char \<Rightarrow> bool" where
  "is_StrWhiteSpaceChar c = (of_char c \<in> {9, 10, 11, 12, 13, 32, 160 :: nat})"

definition trim :: "string \<Rightarrow> string" where
  "trim s = rev (dropWhile is_StrWhiteSpaceChar (rev (dropWhile is_StrWhiteSpaceChar s)))"

definition is_digit :: "char \<Rightarrow> bool" where
  "is_digit c = (48 \<le> (of_char c :: nat) \<and> (of_char c :: nat) \<le> 57)"

text \<open>The value of a digit in a base up to 16, \<open>None\<close> when the character is no such digit.\<close>

definition digit_in :: "nat \<Rightarrow> char \<Rightarrow> nat option" where
  "digit_in base c =
     (let n = (of_char c :: nat);
          v = (if 48 \<le> n \<and> n \<le> 57 then Some (n - 48)
               else if 97 \<le> n \<and> n \<le> 102 then Some (n - 87)
               else if 65 \<le> n \<and> n \<le> 70 then Some (n - 55)
               else None)
      in case v of None \<Rightarrow> None | Some d \<Rightarrow> if d < base then Some d else None)"

definition digits_value :: "nat \<Rightarrow> string \<Rightarrow> nat" where
  "digits_value base ds = foldl (\<lambda>a c. a * base + (case digit_in base c of Some d \<Rightarrow> d | None \<Rightarrow> 0)) 0 ds"

definition all_digits :: "nat \<Rightarrow> string \<Rightarrow> bool" where
  "all_digits base ds = (ds \<noteq> [] \<and> list_all (\<lambda>c. digit_in base c \<noteq> None) ds)"

text \<open>
  \<^verbatim>\<open>NonDecimalIntegerLiteral\<close>: \<^verbatim>\<open>0x\<close>, \<^verbatim>\<open>0o\<close> or \<^verbatim>\<open>0b\<close> (either case) and at least one
  digit of that base. The result is the mathematical value, \<open>None\<close> when the string is
  not such a literal.
\<close>

definition NonDecimalIntegerLiteral :: "string \<Rightarrow> rat option" where
  "NonDecimalIntegerLiteral s =
     (case s of
        z # x # ds \<Rightarrow>
          (let base = (if x = CHR ''x'' \<or> x = CHR ''X'' then 16
                       else if x = CHR ''o'' \<or> x = CHR ''O'' then 8
                       else if x = CHR ''b'' \<or> x = CHR ''B'' then 2
                       else (0::nat))
           in if z = CHR ''0'' \<and> base \<noteq> 0 \<and> all_digits base ds
              then Some (of_nat (digits_value base ds)) else None)
      | _ \<Rightarrow> None)"

text \<open>
  \<^verbatim>\<open>SignedInteger\<close> and \<^verbatim>\<open>ExponentPart\<close>; a missing exponent part is the exponent 0.
\<close>

definition SignedInteger :: "string \<Rightarrow> int option" where
  "SignedInteger t =
     (case t of
        [] \<Rightarrow> None
      | c # ds \<Rightarrow>
          if c = CHR ''+'' then (if all_digits 10 ds then Some (int (digits_value 10 ds)) else None)
          else if c = CHR ''-'' then (if all_digits 10 ds then Some (- int (digits_value 10 ds)) else None)
          else if all_digits 10 (c # ds) then Some (int (digits_value 10 (c # ds))) else None)"

definition ExponentPart :: "string \<Rightarrow> int option" where
  "ExponentPart r =
     (case r of
        [] \<Rightarrow> Some 0
      | c # t \<Rightarrow> if c = CHR ''e'' \<or> c = CHR ''E'' then SignedInteger t else None)"

text \<open>
  \<^verbatim>\<open>StrUnsignedDecimalLiteral\<close> without \<^verbatim>\<open>Infinity\<close>: digits, an optional point with
  optional digits, an optional exponent, with a digit before or after the point.
\<close>

definition StrUnsignedDecimalLiteral :: "string \<Rightarrow> rat option" where
  "StrUnsignedDecimalLiteral s =
     (let ip = takeWhile is_digit s;
          r1 = dropWhile is_digit s;
          dotted = (r1 \<noteq> [] \<and> hd r1 = CHR ''.'');
          fp = (if dotted then takeWhile is_digit (tl r1) else []);
          r2 = (if dotted then dropWhile is_digit (tl r1) else r1)
      in if ip = [] \<and> fp = [] then None
         else case ExponentPart r2 of
                None \<Rightarrow> None
              | Some e \<Rightarrow>
                  (let m = of_nat (digits_value 10 ip)
                           + of_nat (digits_value 10 fp) / 10 ^ length fp
                   in Some (if 0 \<le> e then m * 10 ^ nat e else m / 10 ^ nat (- e))))"

text \<open>
  Rounding a rational to the nearest double, ties to even. \<open>pow2 e\<close> is \<open>2\<close> to the
  integer power \<open>e\<close>, \<open>ilog2 q\<close> the exponent of the largest power of two not above a
  positive \<open>q\<close>. A double has 53 significant bits and exponents from -1022 (shared by the
  subnormals) to 1023; what rounds to \<open>2 ^ 1024\<close> or more is infinite.
\<close>

definition pow2 :: "int \<Rightarrow> rat" where
  "pow2 e = (if 0 \<le> e then 2 ^ nat e else 1 / 2 ^ nat (- e))"

definition ilog2 :: "rat \<Rightarrow> int" where
  "ilog2 q = (let k = bitlen (fst (quotient_of q)) - bitlen (snd (quotient_of q))
              in if pow2 k \<le> q then k else k - 1)"

definition round_half_even :: "rat \<Rightarrow> int" where
  "round_half_even x =
     (let f = \<lfloor>x\<rfloor>; r = x - of_int f
      in if r < 1 / 2 then f else if 1 / 2 < r then f + 1 else if even f then f else f + 1)"

definition to_double :: "rat \<Rightarrow> jsnum" where
  "to_double q =
     (if q = 0 then Finite 0
      else let a = \<bar>q\<bar>;
               e = max (ilog2 a) (- 1022);
               u = pow2 (e - 52);
               r = of_int (round_half_even (a / u)) * u
           in if pow2 1024 \<le> r then (if 0 < q then PosInfinity else NegInfinity)
              else Finite (if 0 < q then r else - r))"

text \<open>
  \<^verbatim>\<open>StrNumericLiteral\<close> after the white space is gone: the empty string is 0, a decimal
  literal may carry a sign, a literal of another base may not; everything else is
  \<^verbatim>\<open>NaN\<close>.
\<close>

definition StrDecimalLiteral :: "string \<Rightarrow> jsnum" where
  "StrDecimalLiteral s =
     (let neg = (s \<noteq> [] \<and> hd s = CHR ''-'');
          u = (if s \<noteq> [] \<and> (hd s = CHR ''+'' \<or> hd s = CHR ''-'') then tl s else s)
      in if u = ''Infinity'' then (if neg then NegInfinity else PosInfinity)
         else case StrUnsignedDecimalLiteral u of
                None \<Rightarrow> NaN
              | Some m \<Rightarrow> to_double (if neg then - m else m))"

definition StringToNumber :: "string \<Rightarrow> jsnum" where
  "StringToNumber str =
     (let s = trim str
      in if s = [] then Finite 0
         else case NonDecimalIntegerLiteral s of
                Some m \<Rightarrow> to_double m
              | None \<Rightarrow> StrDecimalLiteral s)"

text \<open>\<^verbatim>\<open>Number(x)\<close> for \<open>x\<close> a string or \<^verbatim>\<open>undefined\<close>.\<close>

definition Number_of :: "string option \<Rightarrow> jsnum" where
  "Number_of x = (case x of None \<Rightarrow> NaN | Some s \<Rightarrow> StringToNumber s)"

text \<open>
  \<^verbatim>\<open>xs[n]\<close> for an array of strings and a Number: the key is the Number as a string, so
  an element is found when the Number is a whole number below the length; otherwise the
  result is \<^verbatim>\<open>undefined\<close> (\<open>None\<close>).
\<close>

definition array_get :: "string list \<Rightarrow> jsnum \<Rightarrow> string option" where
  "array_get xs n =
     (case n of
        Finite q \<Rightarrow>
          if q = of_int \<lfloor>q\<rfloor> \<and> 0 \<le> q \<and> nat \<lfloor>q\<rfloor> < length xs then Some (xs ! nat \<lfloor>q\<rfloor>) else None
      | _ \<Rightarrow> None)"

section \<open>The shared substitution routine\<close>

text \<open>
  The markers \<^verbatim>\<open>placeholderText\<close> and \<^verbatim>\<open>shortPlaceholderText\<close> are constants imported
  from \<^verbatim>\<open>./util\<close>; the functions below take them as parameters of the same names. The
  expression table \<^verbatim>\<open>node.root().raws.linariaTemplateExpressions\<close> is the parameter
  \<open>expressions\<close>, \<open>None\<close> when the root has no such raw.

  \<^verbatim>\<open>expressions && !Number.isNaN(expressionIndex) && expressions[expressionIndex]\<close>:
  the looked-up string, or \<open>None\<close> for the falsy results \<^verbatim>\<open>undefined\<close> and \<^verbatim>\<open>false\<close>.
\<close>

definition lookup_expression :: "string list option \<Rightarrow> jsnum \<Rightarrow> string option" where
  "lookup_expression expressions expressionIndex =
     (case expressions of
        None \<Rightarrow> None
      | Some es \<Rightarrow> if expressionIndex = NaN then None else array_get es expressionIndex)"

text \<open>The truthiness of a string or \<^verbatim>\<open>undefined\<close>: a non-empty string.\<close>

definition truthy :: "string option \<Rightarrow> bool" where
  "truthy v = (case v of None \<Rightarrow> False | Some t \<Rightarrow> t \<noteq> [])"

text \<open>What the callback of \<^verbatim>\<open>values.forEach\<close> pushes for the token \<open>val\<close>.\<close>

definition substitute_token :: "string \<Rightarrow> string list option \<Rightarrow> string \<Rightarrow> string" where
  "substitute_token shortPlaceholderText expressions val =
     (let expressionIndexString = second (js_split val shortPlaceholderText);
          expressionIndex = Number_of expressionIndexString;
          expression = lookup_expression expressions expressionIndex
      in if truthy expression then the expression else val)"

text \<open>The loop \<^verbatim>\<open>values.forEach\<close>, pushing onto \<open>temp\<close>.\<close>

fun forEach_push :: "string \<Rightarrow> string list option \<Rightarrow> string list \<Rightarrow> string list \<Rightarrow> string list" where
  "forEach_push shortPlaceholderText expressions temp [] = temp"
| "forEach_push shortPlaceholderText expressions temp (val # values) =
     forEach_push shortPlaceholderText expressions
       (temp @ [substitute_token shortPlaceholderText expressions val]) values"

definition substitutePlaceholders :: "string \<Rightarrow> string \<Rightarrow> string list option \<Rightarrow> string" where
  "substitutePlaceholders shortPlaceholderText stringWithPlaceholders expressions =
     (if \<not> js_includes stringWithPlaceholders shortPlaceholderText then stringWithPlaceholders
      else js_join (forEach_push shortPlaceholderText expressions []
                      (js_split stringWithPlaceholders '' '')) '' '')"

text \<open>
  Two readings of a token used to describe the routine: the text that follows the leftmost
  occurrence of a marker (\<open>None\<close> when the marker does not occur), and the text that
  precedes the leftmost occurrence (the whole text when it does not occur).
\<close>

fun after_first :: "string \<Rightarrow> string \<Rightarrow> string option" where
  "after_first m [] = (if m = [] then Some [] else None)"
| "after_first m (c # cs) =
     (if prefix m (c # cs) then Some (drop (length m) (c # cs)) else after_first m cs)"

fun before_first :: "string \<Rightarrow> string \<Rightarrow> string" where
  "before_first m [] = []"
| "before_first m (c # cs) = (if prefix m (c # cs) then [] else c # before_first m cs)"

text \<open>
  The routine as the specification words it: a token is a placeholder when it is the
  short marker followed by decimal digits, the index they denote; a placeholder whose
  index has a non-empty entry in the table is replaced by that entry, every other token
  is kept.
\<close>

definition claimed_placeholder_index :: "string \<Rightarrow> string \<Rightarrow> nat option" where
  "claimed_placeholder_index shortPlaceholderText val =
     (if prefix shortPlaceholderText val
         \<and> all_digits 10 (drop (length shortPlaceholderText) val)
      then Some (digits_value 10 (drop (length shortPlaceholderText) val))
      else None)"

definition claimed_substitute_token :: "string \<Rightarrow> string list option \<Rightarrow> string \<Rightarrow> string" where
  "claimed_substitute_token shortPlaceholderText expressions val =
     (case (claimed_placeholder_index shortPlaceholderText val, expressions) of
        (Some i, Some es) \<Rightarrow> if i < length es \<and> es ! i \<noteq> [] then es ! i else val
      | _ \<Rightarrow> val)"

definition claimed_substitutePlaceholders :: "string \<Rightarrow> string \<Rightarrow> string list option \<Rightarrow> string" where
  "claimed_substitutePlaceholders shortPlaceholderText stringWithPlaceholders expressions =
     (if \<not> js_includes stringWithPlaceholders shortPlaceholderText then stringWithPlaceholders
      else js_join (map (claimed_substitute_token shortPlaceholderText expressions)
                      (js_split stringWithPlaceholders '' '')) '' '')"

section \<open>The printer\<close>

text \<open>
  The methods of \<^verbatim>\<open>postcss/lib/stringifier\<close> that the class calls through \<^verbatim>\<open>super\<close> or
  inherits are not part of this file; they are the fields of a record the handlers take.
  \<^verbatim>\<open>super.raw\<close> and \<^verbatim>\<open>super.rawValue\<close> return text, the others act on the caller's state
  through \<^verbatim>\<open>this.builder\<close>.
\<close>

record 's generic =
  super_comment :: "node \<Rightarrow> 's \<Rightarrow> 's"
  super_document :: "node \<Rightarrow> 's \<Rightarrow> 's"
  body :: "node \<Rightarrow> 's \<Rightarrow> 's"
  super_raw :: "node \<Rightarrow> string \<Rightarrow> string option \<Rightarrow> string"
  super_rawValue :: "node \<Rightarrow> string \<Rightarrow> string"

text \<open>
  \<^verbatim>\<open>new RegExp(`^${placeholderText}:\\d+$`).test(text)\<close>, for a marker that the pattern
  reads literally (no character with a meaning in a regular expression): the marker, a
  colon and one or more of the digits 0 to 9, and nothing else.
\<close>

definition placeholderPattern_test :: "string \<Rightarrow> string \<Rightarrow> bool" where
  "placeholderPattern_test placeholderText t =
     (let n = length placeholderText
      in take n t = placeholderText
         \<and> drop n t \<noteq> []
         \<and> hd (drop n t) = CHR '':''
         \<and> tl (drop n t) \<noteq> []
         \<and> list_all is_digit (tl (drop n t)))"

text \<open>
  \<^verbatim>\<open>comment(node)\<close>. In the handlers \<open>builder\<close> is \<^verbatim>\<open>this.builder\<close>, which the constructor
  has set to the wrapped builder.
\<close>

definition comment ::
  "'s builder \<Rightarrow> 's generic \<Rightarrow> string \<Rightarrow> string list option \<Rightarrow> node \<Rightarrow> 's \<Rightarrow> 's" where
  "comment builder G placeholderText expressions node s =
     (if placeholderPattern_test placeholderText (ntext node)
      then (let expressionIndexString = second (js_split (ntext node) '':'');
                expressionIndex = Number_of expressionIndexString
            in case expressions of
                 None \<Rightarrow> super_comment G node s
               | Some es \<Rightarrow>
                   if expressionIndex = NaN then super_comment G node s
                   else (let expression = array_get es expressionIndex
                         in if truthy expression then builder (the expression) (Some node) None s
                            else super_comment G node s))
      else super_comment G node s)"

text \<open>
  \<^verbatim>\<open>raw(node, own, detect)\<close>: three guarded returns, then the inherited method.
\<close>

definition raw :: "'s generic \<Rightarrow> node \<Rightarrow> string \<Rightarrow> string option \<Rightarrow> string" where
  "raw G node own detect =
     (if own = ''before'' \<and> truthy (raws node ''before'') \<and> truthy (raws node ''linariaBefore'')
      then the (raws node ''linariaBefore'')
      else if own = ''after'' \<and> truthy (raws node ''after'') \<and> truthy (raws node ''linariaAfter'')
      then the (raws node ''linariaAfter'')
      else if own = ''between'' \<and> truthy (raws node ''between'') \<and> truthy (raws node ''linariaBetween'')
      then the (raws node ''linariaBetween'')
      else super_raw G node own detect)"

text \<open>
  \<^verbatim>\<open>c.toUpperCase()\<close> for one code unit below 256. The letters a to z and the letters
  from 224 to 254 other than the division sign 247 move down by 32; the sharp s 223 becomes
  \<^verbatim>\<open>SS\<close>; every other code unit stays, except the micro sign 181 and the y with diaeresis
  255, whose upper case (code units 924 and 376) is no code unit below 256: for these two
  the result is \<open>None\<close>.
\<close>

definition toUpperCase :: "char \<Rightarrow> string option" where
  "toUpperCase c =
     (let n = (of_char c :: nat)
      in if n = 181 \<or> n = 255 then None
         else if n = 223 then Some ''SS''
         else if (97 \<le> n \<and> n \<le> 122) \<or> (224 \<le> n \<and> n \<le> 254 \<and> n \<noteq> 247)
         then Some [char_of (n - 32)]
         else Some [c])"

text \<open>
  \<^verbatim>\<open>`linaria${prop[0]?.toUpperCase()}${prop.slice(1)}`\<close>; for the empty name \<^verbatim>\<open>prop[0]\<close> is
  \<^verbatim>\<open>undefined\<close>, which the template prints as that word. For a first character without an
  upper case below 256 the name is no string of this model; \<open>rawValue\<close> asks for that
  before it reads the name.
\<close>

definition linariaProp :: "string \<Rightarrow> string" where
  "linariaProp p =
     ''linaria'' @ (case p of [] \<Rightarrow> ''undefined'' | c # _ \<Rightarrow> the (toUpperCase c)) @ drop 1 p"

text \<open>
  \<^verbatim>\<open>rawValue(node, prop)\<close>: \<^verbatim>\<open>hasOwnProperty\<close> asks whether the slot is there, whatever its
  value, and the template literal converts the value. A slot whose name is no string of
  this model is no own property of a node of this model.
\<close>

definition rawValue :: "'s generic \<Rightarrow> node \<Rightarrow> string \<Rightarrow> string" where
  "rawValue G node p =
     (if (case p of [] \<Rightarrow> False | c # _ \<Rightarrow> toUpperCase c = None) then super_rawValue G node p
      else case raw_values node (linariaProp p) of
             Some v \<Rightarrow> ToString v
           | None \<Rightarrow> super_rawValue G node p)"

text \<open>The property name that \<^verbatim>\<open>decl\<close> prints: the block that may reassign \<^verbatim>\<open>prop\<close>.\<close>

definition decl_prop :: "string \<Rightarrow> string list option \<Rightarrow> node \<Rightarrow> string" where
  "decl_prop placeholderText expressions node =
     (if js_includes (nprop node) placeholderText
      then (let expressionIndexString = second (js_split (nprop node) placeholderText);
                expressionIndex = Number_of expressionIndexString
            in case expressions of
                 None \<Rightarrow> nprop node
               | Some es \<Rightarrow>
                   if expressionIndex = NaN then nprop node
                   else (let expression = array_get es expressionIndex
                         in if truthy expression then the expression else nprop node))
      else nprop node)"

text \<open>The value that \<^verbatim>\<open>decl\<close> prints.\<close>

definition decl_value :: "'s generic \<Rightarrow> string \<Rightarrow> string list option \<Rightarrow> node \<Rightarrow> string" where
  "decl_value G shortPlaceholderText expressions node =
     (let v = rawValue G node ''value''
      in if js_includes v shortPlaceholderText
         then substitutePlaceholders shortPlaceholderText v expressions
         else v)"

definition decl ::
  "'s builder \<Rightarrow> 's generic \<Rightarrow> string \<Rightarrow> string \<Rightarrow> string list option \<Rightarrow> node \<Rightarrow> bool \<Rightarrow> 's \<Rightarrow> 's" where
  "decl builder G placeholderText shortPlaceholderText expressions node semicolon s =
     (let between = raw G node ''between'' (Some ''colon'');
          p = decl_prop placeholderText expressions node;
          v = decl_value G shortPlaceholderText expressions node;
          string = p @ between @ v;
          string = (if important node
                    then string @ (if truthy (raws node ''important'')
                                   then the (raws node ''important'') else '' !important'')
                    else string);
          string = (if semicolon then string @ '';'' else string)
      in builder string (Some node) None s)"

text \<open>\<^verbatim>\<open>document(node)\<close>; \<^verbatim>\<open>node.source?.input.css ?? ''\<close> is the empty string without a source.\<close>

definition document :: "'s builder \<Rightarrow> 's generic \<Rightarrow> node \<Rightarrow> 's \<Rightarrow> 's" where
  "document builder G node s =
     (if length (nodes node) = 0
      then builder (case source node of None \<Rightarrow> [] | Some src \<Rightarrow> css (input src)) None None s
      else super_document G node s)"

text \<open>
  \<^verbatim>\<open>root(node)\<close>, here \<open>root_handler\<close>: four steps in sequence, each on the state the one
  before has left.
  \<^verbatim>\<open>a ?? b\<close> is \<open>a\<close> unless \<open>a\<close> is missing.
\<close>

definition root_handler :: "'s builder \<Rightarrow> 's generic \<Rightarrow> node \<Rightarrow> 's \<Rightarrow> 's" where
  "root_handler builder G node s =
     (let s1 = builder (case raws node ''codeBefore'' of None \<Rightarrow> [] | Some t \<Rightarrow> t)
                 (Some node) (Some Start) s;
          s2 = body G node s1;
          after = (case raws node ''linariaAfter'' of None \<Rightarrow> raws node ''after'' | Some t \<Rightarrow> Some t);
          s3 = (if truthy after then builder (the after) None None s2 else s2)
      in builder (case raws node ''codeAfter'' of None \<Rightarrow> [] | Some t \<Rightarrow> t)
           (Some node) (Some End) s3)"

text \<open>
  A small generic printer for the examples, recording its calls like \<open>record_call\<close>: a
  comment is printed between its delimiters, a raw slot or raw value is read from the raws
  of the node. The theorems below hold for every generic printer.
\<close>

definition example_generic :: "fragment list generic" where
  "example_generic =
     \<lparr>super_comment = (\<lambda>n. record_call (''/*'' @ ntext n @ ''*/'') (Some n) None),
      super_document = (\<lambda>n. record_call ''<document>'' (Some n) None),
      body = (\<lambda>n. record_call ''<body>'' (Some n) None),
      super_raw = (\<lambda>n own detect. case raws n own of None \<Rightarrow> ''<default>'' | Some t \<Rightarrow> t),
      super_rawValue = (\<lambda>n p. case raws n p of None \<Rightarrow> [] | Some t \<Rightarrow> t)\<rparr>"

section \<open>Properties of the escaping wrapper\<close>

lemma backslash_neq_backtick: "backslash \<noteq> backtick"
  by (simp add: backslash_def backtick_def)

lemma replace_all_append:
  "replace_all c r (xs @ ys) = replace_all c r xs @ replace_all c r ys"
  by (induction xs) simp_all

lemma escape_concat_map: "escape str = concat (map escape_char str)"
proof (induction str)
  case Nil
  show ?case by (simp add: escape_def)
next
  case (Cons x xs)
  have tail: "replace_all backtick [backslash, backtick]
                (replace_all backslash [backslash, backslash] xs) = concat (map escape_char xs)"
    using Cons.IH by (simp add: escape_def)
  have head: "replace_all backtick [backslash, backtick]
                (replace_all backslash [backslash, backslash] [x]) = escape_char x"
    using backslash_neq_backtick by (simp add: escape_char_def)
  have "escape (x # xs) = replace_all backtick [backslash, backtick]
          (replace_all backslash [backslash, backslash] [x]
           @ replace_all backslash [backslash, backslash] xs)"
    unfolding escape_def using replace_all_append [of backslash _ "[x]" xs] by simp
  also have "\<dots> = escape_char x @ concat (map escape_char xs)"
    using head tail by (simp only: replace_all_append)
  finally show ?case by simp
qed

text \<open>
  Claim C1. A call of the wrapped sink with no node, or with a node of type root, reaches
  the underlying sink with the text unchanged. With any other node the text that reaches
  it is the input after the backslash pass and then the backtick pass; read as one pass,
  every backslash has become two backslashes, every backtick has become backslash backtick
  and every other character is untouched, so no inserted backslash is escaped again; a
  backslash directly followed by a backtick becomes two backslashes, a backslash and the
  backtick. The node and the boundary mark are forwarded as they are.
\<close>

theorem wrappedBuilder_escapes:
  "wrappedBuilder builder str None type = builder str None type
   \<and> (ntype n = Root \<longrightarrow> wrappedBuilder builder str (Some n) type = builder str (Some n) type)
   \<and> (ntype n \<noteq> Root \<longrightarrow>
        wrappedBuilder builder str (Some n) type =
          builder (replace_all backtick [backslash, backtick]
                     (replace_all backslash [backslash, backslash] str)) (Some n) type
        \<and> replace_all backtick [backslash, backtick]
            (replace_all backslash [backslash, backslash] str) = concat (map escape_char str))
   \<and> escape [backslash, backtick] = [backslash, backslash, backslash, backtick]"
proof -
  have two_pass: "replace_all backtick [backslash, backtick]
      (replace_all backslash [backslash, backslash] str) = concat (map escape_char str)"
    using escape_concat_map [of str] by (simp add: escape_def)
  have example: "escape [backslash, backtick] = [backslash, backslash, backslash, backtick]"
    using backslash_neq_backtick by (simp add: escape_def)
  show ?thesis
    using two_pass example by (simp add: wrappedBuilder_def escape_def)
qed

theorem wrappedBuilder_escapes_witness:
  "wrappedBuilder record_call ''a`b'' (Some (Node Root Map.empty [] [] False None [])) None []
     = [(''a`b'', Some (Node Root Map.empty [] [] False None []), None)]
   \<and> wrappedBuilder record_call [CHR ''a'', backslash, backtick]
        (Some (Node Decl Map.empty [] [] False None [])) None []
     = [([CHR ''a'', backslash, backslash, backslash, backtick],
         Some (Node Decl Map.empty [] [] False None []), None)]"
  using wrappedBuilder_escapes [of record_call "''a`b''" None
          "Node Root Map.empty [] [] False None []"]
        wrappedBuilder_escapes [of record_call "[CHR ''a'', backslash, backtick]" None
          "Node Decl Map.empty [] [] False None []"]
        backslash_neq_backtick
  by (simp add: record_call_def escape_char_def backslash_def backtick_def)

section \<open>Splitting and joining\<close>

lemma forEach_push_map:
  "forEach_push m es temp vals = temp @ map (substitute_token m es) vals"
  by (induction vals arbitrary: temp) simp_all

lemma split_from_nonempty: "split_from sep cur s \<noteq> []"
  by (induction sep cur s rule: split_from.induct) simp_all

lemma js_join_Cons: "xs \<noteq> [] \<Longrightarrow> js_join (x # xs) sep = x @ sep @ js_join xs sep"
  by (cases xs) simp_all

lemma js_join_split_from: "sep \<noteq> [] \<Longrightarrow> js_join (split_from sep cur s) sep = cur @ s"
proof (induction sep cur s rule: split_from.induct)
  case (1 sep cur)
  then show ?case by simp
next
  case (2 sep cur c cs)
  show ?case
  proof (cases "prefix sep (c # cs)")
    case True
    then obtain r where r: "c # cs = sep @ r" by (auto simp: prefix_def)
    have "js_join (split_from sep cur (c # cs)) sep
            = cur @ sep @ js_join (split_from sep [] (drop (length sep) (c # cs))) sep"
      using True "2.prems" by (simp add: js_join_Cons split_from_nonempty)
    also have "\<dots> = cur @ sep @ drop (length sep) (c # cs)"
      using "2.IH"(1) True "2.prems" by simp
    also have "\<dots> = cur @ c # cs" using r by simp
    finally show ?thesis .
  next
    case False
    then show ?thesis using "2.IH"(2) "2.prems" by simp
  qed
qed

lemma js_join_js_split: "sep \<noteq> [] \<Longrightarrow> js_join (js_split s sep) sep = s"
  by (simp add: js_split_def js_join_split_from)

lemma split_from_pieces:
  "sep \<noteq> [] \<Longrightarrow>
   split_from sep cur s =
     (cur @ before_first sep s)
     # (case after_first sep s of None \<Rightarrow> [] | Some t \<Rightarrow> split_from sep [] t)"
  by (induction sep cur s rule: split_from.induct) auto

lemma second_js_split:
  "sep \<noteq> [] \<Longrightarrow>
   second (js_split val sep) = map_option (before_first sep) (after_first sep val)"
proof -
  assume sep: "sep \<noteq> []"
  show ?thesis
  proof (cases "after_first sep val")
    case None
    then show ?thesis using sep split_from_pieces [of sep "[]" val]
      by (simp add: js_split_def second_def)
  next
    case (Some t)
    then show ?thesis
      using sep split_from_pieces [of sep "[]" val] split_from_pieces [of sep "[]" t]
      by (simp add: js_split_def second_def)
  qed
qed

lemma after_first_None_iff: "after_first m s = None \<longleftrightarrow> \<not> js_includes s m"
  by (induction s) auto

lemma after_first_decompose:
  "after_first m s = Some t \<Longrightarrow> s = before_first m s @ m @ t"
  by (induction s) (auto simp: prefix_def split: if_splits)


lemma after_first_skip:
  "m \<noteq> [] \<Longrightarrow> hd m \<notin> set pre \<Longrightarrow> after_first m (pre @ m @ t) = Some t"
  by (induction pre) (auto simp: prefix_def neq_Nil_conv)

lemma js_includes_iff: "js_includes s m \<longleftrightarrow> (\<exists>p r. s = p @ m @ r)"
proof (induction s)
  case Nil
  then show ?case by auto
next
  case (Cons c cs)
  show ?case
  proof
    assume "js_includes (c # cs) m"
    then consider "prefix m (c # cs)" | "js_includes cs m" by auto
    then show "\<exists>p r. c # cs = p @ m @ r"
    proof cases
      case 1
      then obtain r where "c # cs = m @ r" by (auto simp: prefix_def)
      then have "c # cs = [] @ m @ r" by simp
      then show ?thesis by blast
    next
      case 2
      then obtain p r where "cs = p @ m @ r" using Cons.IH by blast
      then have "c # cs = (c # p) @ m @ r" by simp
      then show ?thesis by blast
    qed
  next
    assume "\<exists>p r. c # cs = p @ m @ r"
    then obtain p r where pr: "c # cs = p @ m @ r" by blast
    show "js_includes (c # cs) m"
    proof (cases p)
      case Nil
      then have "prefix m (c # cs)" using pr by (simp add: prefix_def)
      then show ?thesis by simp
    next
      case (Cons a p')
      then have "cs = p' @ m @ r" using pr by simp
      then show ?thesis using Cons.IH by auto
    qed
  qed
qed

lemma js_includes_set: "js_includes s m \<Longrightarrow> set m \<subseteq> set s"
  by (auto simp: js_includes_iff)

lemma before_first_id: "\<not> js_includes t m \<Longrightarrow> before_first m t = t"
  by (induction t) auto



lemma split_char_none: "c \<notin> set x \<Longrightarrow> split_from [c] cur x = [cur @ x]"
  by (induction x arbitrary: cur) simp_all

lemma split_char_skip:
  "c \<notin> set x \<Longrightarrow> split_from [c] cur (x @ c # rest) = (cur @ x) # split_from [c] [] rest"
  by (induction x arbitrary: cur) simp_all

lemma short_text_excludes: "length t < length m \<Longrightarrow> \<not> js_includes t m"
  by (auto simp: js_includes_iff)

lemma includes_middle: "js_includes (p @ m @ r) m"
  by (auto simp: js_includes_iff)

section \<open>The Number conversion of a string of digits\<close>

lemma is_digit_iff: "is_digit c \<longleftrightarrow> digit_in 10 c \<noteq> None"
  by (auto simp: is_digit_def digit_in_def Let_def split: option.splits if_splits)

lemma all_digits_is_digit: "all_digits 10 ds \<longleftrightarrow> ds \<noteq> [] \<and> list_all is_digit ds"
  by (auto simp: all_digits_def list_all_iff is_digit_iff)

lemma digit_not_ws: "is_digit c \<Longrightarrow> \<not> is_StrWhiteSpaceChar c"
  by (auto simp: is_digit_def is_StrWhiteSpaceChar_def)

lemma dropWhile_hd: "xs \<noteq> [] \<Longrightarrow> \<not> P (hd xs) \<Longrightarrow> dropWhile P xs = xs"
  by (cases xs) simp_all

lemma trim_digits: "list_all is_digit ds \<Longrightarrow> trim ds = ds"
proof (cases "ds = []")
  case True
  then show ?thesis by (simp add: trim_def)
next
  case False
  assume "list_all is_digit ds"
  then have a: "\<forall>c\<in>set ds. \<not> is_StrWhiteSpaceChar c"
    using digit_not_ws by (auto simp: list_all_iff)
  have "hd ds \<in> set ds" using False by simp
  then have 1: "dropWhile is_StrWhiteSpaceChar ds = ds"
    using a False dropWhile_hd by blast
  have "hd (rev ds) \<in> set ds" using False by (simp add: hd_rev)
  then have 2: "dropWhile is_StrWhiteSpaceChar (rev ds) = rev ds"
    using a False dropWhile_hd [of "rev ds" is_StrWhiteSpaceChar] by simp
  show ?thesis using 1 2 by (simp add: trim_def)
qed

lemma is_digit_chars:
  "is_digit c \<Longrightarrow> c \<noteq> CHR ''x'' \<and> c \<noteq> CHR ''X'' \<and> c \<noteq> CHR ''o'' \<and> c \<noteq> CHR ''O''
     \<and> c \<noteq> CHR ''b'' \<and> c \<noteq> CHR ''B'' \<and> c \<noteq> CHR ''+'' \<and> c \<noteq> CHR ''-'' \<and> c \<noteq> CHR ''I''"
  by (auto simp: is_digit_def)

lemma NonDecimal_digits: "list_all is_digit ds \<Longrightarrow> NonDecimalIntegerLiteral ds = None"
proof (cases ds)
  case Nil
  then show ?thesis by (simp add: NonDecimalIntegerLiteral_def)
next
  case outer: (Cons z t)
  assume a: "list_all is_digit ds"
  show ?thesis
  proof (cases t)
    case Nil
    then show ?thesis using outer by (simp add: NonDecimalIntegerLiteral_def)
  next
    case (Cons x r)
    then have "is_digit x" using a outer by simp
    then have "x \<noteq> CHR ''x'' \<and> x \<noteq> CHR ''X'' \<and> x \<noteq> CHR ''o'' \<and> x \<noteq> CHR ''O''
        \<and> x \<noteq> CHR ''b'' \<and> x \<noteq> CHR ''B''"
      using is_digit_chars by blast
    then show ?thesis using outer Cons by (simp add: NonDecimalIntegerLiteral_def)
  qed
qed

lemma Unsigned_digits:
  "ds \<noteq> [] \<Longrightarrow> list_all is_digit ds \<Longrightarrow>
   StrUnsignedDecimalLiteral ds = Some (of_nat (digits_value 10 ds))"
proof -
  assume ne: "ds \<noteq> []" and a: "list_all is_digit ds"
  have t: "takeWhile is_digit ds = ds" using a by (simp add: list_all_iff)
  have d: "dropWhile is_digit ds = []" using a by (simp add: list_all_iff)
  have dv0: "digits_value 10 [] = 0" by (simp add: digits_value_def)
  show ?thesis
    using ne by (simp add: StrUnsignedDecimalLiteral_def t d Let_def ExponentPart_def dv0)
qed

lemma StrDecimal_digits:
  "ds \<noteq> [] \<Longrightarrow> list_all is_digit ds \<Longrightarrow>
   StrDecimalLiteral ds = to_double (of_nat (digits_value 10 ds))"
proof -
  assume ne: "ds \<noteq> []" and a: "list_all is_digit ds"
  then have h: "is_digit (hd ds)" by (cases ds) auto
  have s: "hd ds \<noteq> CHR ''+'' \<and> hd ds \<noteq> CHR ''-'' \<and> hd ds \<noteq> CHR ''I''"
    using is_digit_chars [OF h] by simp
  have inf: "ds \<noteq> ''Infinity''" using s by (cases ds) simp_all
  show ?thesis
    using s inf Unsigned_digits [OF ne a] by (simp add: StrDecimalLiteral_def Let_def)
qed

lemma StringToNumber_digits:
  "all_digits 10 ds \<Longrightarrow> StringToNumber ds = to_double (of_nat (digits_value 10 ds))"
  by (simp add: all_digits_is_digit StringToNumber_def Let_def trim_digits NonDecimal_digits
      StrDecimal_digits)

lemma pow2_nonneg: "0 \<le> e \<Longrightarrow> pow2 e = 2 ^ nat e"
  by (simp add: pow2_def)

lemma round_half_even_of_int: "round_half_even (of_int z) = z"
  by (simp add: round_half_even_def)

lemma round_half_even_ge: "\<lfloor>x\<rfloor> \<le> round_half_even x"
  by (simp add: round_half_even_def Let_def)

lemma ilog2_of_nat:
  assumes "0 < n"
  shows "ilog2 (of_nat n) = bitlen (int n) - 1"
proof -
  have q: "quotient_of (of_nat n) = (int n, 1)"
    using quotient_of_int [of "int n"] by simp
  have b1: "bitlen 1 = 1" by (simp add: bitlen_alt_def)
  have pos: "0 < int n" using assms by simp
  have ge: "1 \<le> bitlen (int n)" using pos by (simp add: bitlen_alt_def)
  have "(2::int) ^ nat (bitlen (int n) - 1) \<le> int n"
    using bitlen_bounds [OF pos] by simp
  then have "(of_int ((2::int) ^ nat (bitlen (int n) - 1)) :: rat) \<le> of_int (int n)"
    by (simp only: of_int_le_iff)
  then have "pow2 (bitlen (int n) - 1) \<le> of_nat n"
    using ge by (simp add: pow2_nonneg)
  then show ?thesis by (simp add: ilog2_def q b1)
qed

lemma bitlen_le_53:
  assumes "0 < n" "n < 2 ^ 53"
  shows "bitlen (int n) \<le> 53"
proof (rule ccontr)
  assume "\<not> bitlen (int n) \<le> 53"
  then have "53 \<le> bitlen (int n) - 1" by simp
  then have "(53::nat) \<le> nat (bitlen (int n) - 1)" by simp
  then have "(2::int) ^ 53 \<le> 2 ^ nat (bitlen (int n) - 1)"
    by (rule power_increasing) simp
  also have "\<dots> \<le> int n" using bitlen_bounds [of "int n"] assms(1) by simp
  finally show False using assms(2) by simp
qed

lemma to_double_small:
  assumes "n < 2 ^ 53"
  shows "to_double (of_nat n) = Finite (of_nat n)"
proof (cases "n = 0")
  case True
  then show ?thesis by (simp add: to_double_def)
next
  case False
  then have pos: "0 < n" by simp
  define e where "e = bitlen (int n) - 1"
  have e0: "0 \<le> e" using pos by (simp add: e_def bitlen_alt_def)
  have e52: "e \<le> 52" using bitlen_le_53 [OF pos assms] by (simp add: e_def)
  have il: "ilog2 (of_nat n) = e" using ilog2_of_nat [OF pos] by (simp add: e_def)
  have mx: "max e (- 1022) = e" using e0 by simp
  define k where "k = nat (52 - e)"
  have u: "pow2 (e - 52) = 1 / 2 ^ k"
    using e52 by (cases "e = 52") (simp_all add: pow2_def k_def)
  have quot: "(of_nat n :: rat) / pow2 (e - 52) = of_int (int n * 2 ^ k)"
    by (simp add: u)
  have r: "of_int (round_half_even (of_nat n / pow2 (e - 52))) * pow2 (e - 52) = (of_nat n :: rat)"
    by (simp only: quot round_half_even_of_int) (simp add: u)
  have small: "\<not> pow2 1024 \<le> (of_nat n :: rat)"
  proof -
    have "(of_nat n :: rat) < of_nat (2 ^ 53)" using assms by (simp only: of_nat_less_iff)
    also have "\<dots> \<le> pow2 1024" by (simp add: pow2_def)
    finally show ?thesis by simp
  qed
  have nz: "(of_nat n :: rat) \<noteq> 0" using pos by simp
  have ab: "\<bar>of_nat n :: rat\<bar> = of_nat n" by simp
  show ?thesis
    unfolding to_double_def Let_def ab il mx r using nz small pos by simp
qed

lemma to_double_large:
  assumes "2 ^ 53 \<le> n"
  shows "to_double (of_nat n) = PosInfinity
         \<or> (\<exists>r. to_double (of_nat n) = Finite r \<and> 2 ^ 53 \<le> r)"
proof -
  have pos: "0 < n" using assms by (cases "n = 0") simp_all
  have ipos: "0 < int n" using pos by simp
  define e where "e = bitlen (int n) - 1"
  have lo: "(2::int) ^ nat e \<le> int n" and hi: "int n < 2 ^ nat (e + 1)"
    using bitlen_bounds [OF ipos] by (simp_all add: e_def)
  have e53: "53 \<le> e"
  proof (rule ccontr)
    assume "\<not> 53 \<le> e"
    then have "nat (e + 1) \<le> 53" by simp
    then have "(2::int) ^ nat (e + 1) \<le> 2 ^ 53" by (rule power_increasing) simp
    with hi have "int n < 2 ^ 53" by (rule less_le_trans)
    then have "n < 2 ^ 53" by (simp only: of_nat_less_iff [symmetric, where 'a = int] of_nat_power of_nat_numeral)
    then show False using assms by simp
  qed
  have il: "ilog2 (of_nat n) = e" using ilog2_of_nat [OF pos] by (simp add: e_def)
  have mx: "max e (- 1022) = e" using e53 by simp
  define k where "k = nat (e - 52)"
  have k1: "1 \<le> k" using e53 by (simp add: k_def)
  have ek: "nat e = 52 + k" using e53 by (simp add: k_def)
  have u: "pow2 (e - 52) = 2 ^ k" using e53 by (simp add: pow2_def k_def)
  define m where "m = round_half_even (of_nat n / pow2 (e - 52))"
  have "(2::rat) ^ 52 * 2 ^ k \<le> of_int (int n)"
  proof -
    have "(of_int ((2::int) ^ nat e) :: rat) \<le> of_int (int n)"
      using lo by (simp only: of_int_le_iff)
    then show ?thesis by (simp add: ek power_add)
  qed
  then have "(2::rat) ^ 52 \<le> of_nat n / 2 ^ k"
    by (simp add: pos_le_divide_eq)
  then have "(of_int (2 ^ 52) :: rat) \<le> of_nat n / pow2 (e - 52)"
    by (simp add: u)
  then have "(2::int) ^ 52 \<le> \<lfloor>(of_nat n :: rat) / pow2 (e - 52)\<rfloor>"
    by (simp only: le_floor_iff)
  also have "\<dots> \<le> m"
    unfolding m_def by (rule round_half_even_ge)
  finally have m52: "2 ^ 52 \<le> m" .
  have "(2::rat) ^ 53 = 2 ^ 52 * 2 ^ 1" by simp
  also have "\<dots> \<le> of_int m * 2 ^ k"
  proof (rule mult_mono)
    show "(2::rat) ^ 52 \<le> of_int m"
      using m52 by (metis of_int_le_iff of_int_numeral of_int_power)
    show "(2::rat) ^ 1 \<le> 2 ^ k" using k1 by (intro power_increasing) simp_all
    have "0 \<le> (2::int) ^ 52" by simp
    then have "0 \<le> m" using m52 by (rule order_trans)
    then show "0 \<le> (of_int m :: rat)" by simp
  qed simp
  finally have big: "(2::rat) ^ 53 \<le> of_int m * pow2 (e - 52)" by (simp add: u)
  have nz: "(of_nat n :: rat) \<noteq> 0" using pos by simp
  have ab: "\<bar>of_nat n :: rat\<bar> = of_nat n" by simp
  show ?thesis
    unfolding to_double_def Let_def ab il mx using nz pos big by (simp add: m_def)
qed

lemma array_get_to_double:
  assumes "length es \<le> 2 ^ 53"
  shows "array_get es (to_double (of_nat n)) = (if n < length es then Some (es ! n) else None)"
proof (cases "n < 2 ^ 53")
  case True
  then show ?thesis by (simp add: to_double_small array_get_def)
next
  case False
  then have ge: "2 ^ 53 \<le> n" by simp
  have out: "\<not> n < length es" using assms ge by simp
  from to_double_large [OF ge] show ?thesis
  proof
    assume "to_double (of_nat n) = PosInfinity"
    then show ?thesis using out by (simp add: array_get_def)
  next
    assume "\<exists>r. to_double (of_nat n) = Finite r \<and> 2 ^ 53 \<le> r"
    then obtain r where r: "to_double (of_nat n) = Finite r" "2 ^ 53 \<le> r" by blast
    have "(of_int (2 ^ 53) :: rat) \<le> r" using r(2) by simp
    then have "(2::int) ^ 53 \<le> \<lfloor>r\<rfloor>" by (simp only: le_floor_iff)
    then have "nat ((2::int) ^ 53) \<le> nat \<lfloor>r\<rfloor>" by (rule nat_mono)
    moreover have "nat ((2::int) ^ 53) = 2 ^ 53" by simp
    ultimately have "(2::nat) ^ 53 \<le> nat \<lfloor>r\<rfloor>" by (simp only:)
    then have "\<not> nat \<lfloor>r\<rfloor> < length es" using assms by simp
    then show ?thesis using out r(1) by (simp add: array_get_def)
  qed
qed

lemma to_double_not_NaN: "to_double q \<noteq> NaN"
  by (simp add: to_double_def Let_def)

lemma lookup_digits:
  assumes "all_digits 10 ds" "length es \<le> 2 ^ 53"
  shows "lookup_expression (Some es) (StringToNumber ds)
         = (if digits_value 10 ds < length es then Some (es ! digits_value 10 ds) else None)"
  using assms
  by (simp add: lookup_expression_def StringToNumber_digits to_double_not_NaN array_get_to_double)

lemma array_get_in_set: "array_get es n = Some e \<Longrightarrow> e \<in> set es"
  by (auto simp: array_get_def split: jsnum.splits if_splits)

lemma digits_exclude:
  "list_all is_digit ds \<Longrightarrow> c \<in> set m \<Longrightarrow> \<not> is_digit c \<Longrightarrow> \<not> js_includes ds m"
  using js_includes_set [of ds m] by (auto simp: list_all_iff)

lemma index_string_of_placeholder:
  assumes "m \<noteq> []" "hd m \<notin> set pre" "c \<in> set m" "\<not> is_digit c" "list_all is_digit ds"
  shows "second (js_split (pre @ m @ ds) m) = Some ds"
  using assms
  by (simp add: second_js_split after_first_skip before_first_id digits_exclude)

lemma colon_not_digit: "\<not> is_digit CHR '':''"
  by (simp add: is_digit_def)

lemma digit_facts:
  "all_digits 10 ''0''" "all_digits 10 ''1''" "all_digits 10 ''5''" "all_digits 10 ''7''"
  "digits_value 10 ''0'' = 0" "digits_value 10 ''1'' = 1" "digits_value 10 ''5'' = 5"
  "digits_value 10 ''7'' = 7"
  by code_simp+

lemma p_not_digit: "\<not> is_digit CHR ''p''"
  by (simp add: is_digit_def)

section \<open>The shared substitution routine, token by token\<close>

lemma substitutePlaceholders_fast_path:
  "\<not> js_includes v m \<Longrightarrow> substitutePlaceholders m v es = v"
  by (simp add: substitutePlaceholders_def)

lemma substitutePlaceholders_map:
  "js_includes s m \<Longrightarrow>
   substitutePlaceholders m s exprs
     = js_join (map (substitute_token m exprs) (js_split s '' '')) '' ''"
  by (simp add: substitutePlaceholders_def forEach_push_map)

lemma substitute_token_pieces:
  "m \<noteq> [] \<Longrightarrow>
   substitute_token m exprs val =
     (case after_first m val of
        None \<Rightarrow> val
      | Some t \<Rightarrow>
          if truthy (lookup_expression exprs (StringToNumber (before_first m t)))
          then the (lookup_expression exprs (StringToNumber (before_first m t)))
          else val)"
  by (simp add: substitute_token_def second_js_split Let_def Number_of_def lookup_expression_def
      truthy_def split: option.splits)

lemma substitute_token_digits:
  assumes "m \<noteq> []" "hd m \<notin> set pre" "c \<in> set m" "\<not> is_digit c"
    "all_digits 10 ds" "length es \<le> 2 ^ 53"
  shows "substitute_token m (Some es) (pre @ m @ ds)
         = (if digits_value 10 ds < length es \<and> es ! digits_value 10 ds \<noteq> []
            then es ! digits_value 10 ds else pre @ m @ ds)"
proof -
  have idx: "second (js_split (pre @ m @ ds) m) = Some ds"
    using index_string_of_placeholder [OF assms(1-4)] assms(5) by (simp add: all_digits_is_digit)
  show ?thesis
    using lookup_digits [OF assms(5,6)]
    by (simp add: substitute_token_def idx Let_def Number_of_def truthy_def)
qed

lemma substitute_token_changes:
  assumes "substitute_token m exprs val \<noteq> val"
  shows "\<exists>es idx. exprs = Some es \<and> second (js_split val m) = Some idx
           \<and> StringToNumber idx \<noteq> NaN
           \<and> array_get es (StringToNumber idx) = Some (substitute_token m exprs val)
           \<and> substitute_token m exprs val \<noteq> []"
proof -
  let ?e = "lookup_expression exprs (Number_of (second (js_split val m)))"
  have t: "truthy ?e"
  proof (rule ccontr)
    assume "\<not> truthy ?e"
    then have "substitute_token m exprs val = val" by (simp add: substitute_token_def Let_def)
    then show False using assms by simp
  qed
  then obtain e where e: "?e = Some e" "e \<noteq> []" by (auto simp: truthy_def split: option.splits)
  then have r: "substitute_token m exprs val = e" by (simp add: substitute_token_def Let_def truthy_def)
  from e(1) obtain es where es: "exprs = Some es"
    by (cases exprs) (simp_all add: lookup_expression_def)
  from e(1) es have nn: "Number_of (second (js_split val m)) \<noteq> NaN"
    by (auto simp: lookup_expression_def split: if_splits)
  then obtain idx where idx: "second (js_split val m) = Some idx"
    by (cases "second (js_split val m)") (simp_all add: Number_of_def)
  have "array_get es (StringToNumber idx) = Some e"
    using e(1) es nn idx by (simp add: lookup_expression_def Number_of_def)
  then show ?thesis using es idx nn r e(2) by (simp add: Number_of_def)
qed

lemma substitute_token_without_marker: "\<not> js_includes val m \<Longrightarrow> substitute_token m exprs val = val"
proof (cases "m = []")
  case True
  have "val = [] @ [] @ val" by simp
  then have "js_includes val []" unfolding js_includes_iff by blast
  moreover assume "\<not> js_includes val m"
  ultimately show ?thesis using True by simp
next
  case False
  assume "\<not> js_includes val m"
  then have "after_first m val = None" by (simp add: after_first_None_iff)
  then show ?thesis using False by (simp add: substitute_token_pieces)
qed

lemma example_general:
  assumes "CHR '' '' \<notin> set m" "c \<in> set m" "\<not> is_digit c" "2 \<le> length m"
  shows "substitutePlaceholders m (''a '' @ m @ ''0 b'') (Some [''${x}'']) = ''a ${x} b''"
proof -
  have ne: "m \<noteq> []" using assms(4) by auto
  have inc: "js_includes (''a '' @ m @ ''0 b'') m" by (rule includes_middle)
  have sp0: "CHR '' '' \<notin> set (m @ ''0'')" using assms(1) by simp
  have "js_split (''a '' @ m @ ''0 b'') '' '' = split_from '' '' [] (''a'' @ CHR '' '' # ((m @ ''0'') @ CHR '' '' # ''b''))"
    by (simp add: js_split_def)
  also have "\<dots> = ''a'' # split_from '' '' [] ((m @ ''0'') @ CHR '' '' # ''b'')"
    by (subst split_char_skip) simp_all
  also have "\<dots> = ''a'' # (m @ ''0'') # split_from '' '' [] ''b''"
    using split_char_skip [OF sp0, of "[]" "''b''"] by simp
  also have "\<dots> = [''a'', m @ ''0'', ''b'']" by simp
  finally have toks: "js_split (''a '' @ m @ ''0 b'') '' '' = [''a'', m @ ''0'', ''b'']" .
  have a: "substitute_token m (Some [''${x}'']) ''a'' = ''a''"
    using assms(4) by (intro substitute_token_without_marker short_text_excludes) simp
  have b: "substitute_token m (Some [''${x}'']) ''b'' = ''b''"
    using assms(4) by (intro substitute_token_without_marker short_text_excludes) simp
  have d0: "all_digits 10 ''0''" by (simp add: all_digits_is_digit is_digit_def)
  have v0: "digits_value 10 ''0'' = 0" by (simp add: digits_value_def digit_in_def)
  have mid: "substitute_token m (Some [''${x}'']) (m @ ''0'') = ''${x}''"
    using substitute_token_digits [of m "[]" c "''0''" "[''${x}'']"] ne assms(2,3) d0 v0 by simp
  have "substitutePlaceholders m (''a '' @ m @ ''0 b'') (Some [''${x}''])
          = js_join (map (substitute_token m (Some [''${x}''])) (js_split (''a '' @ m @ ''0 b'') '' '')) '' ''"
    by (rule substitutePlaceholders_map [OF inc])
  also have "\<dots> = js_join (map (substitute_token m (Some [''${x}''])) [''a'', m @ ''0'', ''b'']) '' ''"
    by (simp only: toks)
  also have "\<dots> = ''a ${x} b''" by (simp add: a b mid)
  finally show ?thesis .
qed

lemma substitute_token_empty_entry:
  "array_get es (Number_of (second (js_split val m))) = Some [] \<Longrightarrow>
   substitute_token m (Some es) val = val"
  by (simp add: substitute_token_def Let_def lookup_expression_def truthy_def)

lemma substitute_token_all_empty:
  assumes "\<forall>e\<in>set es. e = []"
  shows "substitute_token m (Some es) val = val"
proof (rule ccontr)
  assume "substitute_token m (Some es) val \<noteq> val"
  from substitute_token_changes [OF this]
  obtain idx where "array_get es (StringToNumber idx) = Some (substitute_token m (Some es) val)"
    and ne: "substitute_token m (Some es) val \<noteq> []" by auto
  then have "substitute_token m (Some es) val \<in> set es" by (simp add: array_get_in_set)
  then show False using assms ne by simp
qed

lemma substitutePlaceholders_all_empty:
  assumes "\<forall>e\<in>set es. e = []"
  shows "substitutePlaceholders m v (Some es) = v"
proof (cases "js_includes v m")
  case False
  then show ?thesis by (simp add: substitutePlaceholders_fast_path)
next
  case True
  have "map (substitute_token m (Some es)) (js_split v '' '') = js_split v '' ''"
    using substitute_token_all_empty [OF assms] by (simp add: map_idI)
  then show ?thesis
    using True by (simp add: substitutePlaceholders_map js_join_js_split)
qed

lemma plain_value: "\<not> js_includes ''1px solid'' ''pcss-lin''"
  by code_simp

lemma plain_property: "\<not> js_includes ''color'' ''postcss-linaria''"
  by code_simp


lemma empty_entry_lookups:
  "array_get [[]] (Number_of (second (js_split ''pcss-lin0'' ''pcss-lin''))) = Some []"
  "array_get [[]] (Number_of (second (js_split ''postcss-linaria:0'' '':''))) = Some []"
  "array_get [[]] (Number_of (second (js_split ''postcss-linaria0'' ''postcss-linaria''))) = Some []"
  by code_simp+

lemma index_string_after_first:
  assumes "after_first m val = Some ds" "c \<in> set m" "\<not> is_digit c" "list_all is_digit ds"
  shows "second (js_split val m) = Some ds"
proof -
  have ne: "m \<noteq> []" using assms(2) by auto
  have "before_first m ds = ds"
    using digits_exclude [OF assms(4,2,3)] by (rule before_first_id)
  then show ?thesis using ne assms(1) by (simp add: second_js_split)
qed

lemma substitute_token_after_first:
  assumes "after_first m val = Some ds" "c \<in> set m" "\<not> is_digit c"
    "all_digits 10 ds" "length es \<le> 2 ^ 53"
  shows "substitute_token m (Some es) val
         = (if digits_value 10 ds < length es \<and> es ! digits_value 10 ds \<noteq> []
            then es ! digits_value 10 ds else val)"
proof -
  have idx: "second (js_split val m) = Some ds"
    using index_string_after_first [OF assms(1-3)] assms(4) by (simp add: all_digits_is_digit)
  show ?thesis
    using lookup_digits [OF assms(4,5)]
    by (simp add: substitute_token_def idx Let_def Number_of_def truthy_def)
qed

lemma substitute_token_no_table: "substitute_token m None val = val"
  by (simp add: substitute_token_def Let_def lookup_expression_def truthy_def)


lemma after_first_whole: "m \<noteq> [] \<Longrightarrow> after_first m (m @ t) = Some t"
  using after_first_skip [of m "[]" t] by simp

lemma leading_text_facts:
  "after_first ''pcss-lin'' ''repeat(pcss-lin0'' = Some ''0''"
  "after_first ''pcss-lin'' ''pcss-lin0px'' = Some ''0px''"
  "after_first ''pcss-lin'' ''pcss-lin7'' = Some ''7''"
  "after_first ''postcss-linaria'' ''postcss-linaria1'' = Some ''1''"
  by code_simp+

text \<open>
  Claim C2, as amended. The routine returns the string unchanged when it does not contain
  the short marker. Otherwise it splits the string at single spaces, maps every token and
  joins the results with single spaces. A token without the marker is kept, and without a
  table every token is kept. A token in which the first occurrence of the marker is
  followed, up to the end of the token, by decimal digits is replaced, whatever text comes
  before the marker, by the entry of the table the digits index when that entry is there
  and is not empty, and is kept otherwise; a token that is the marker followed by an index
  is the case without leading text. So \<^verbatim>\<open>a <marker>0 b\<close> with the table \<^verbatim>\<open>["${x}"]\<close> gives
  \<^verbatim>\<open>a ${x} b\<close>, for every marker of two or more characters without a space and with a
  character that is not a digit. Tables have fewer than \<open>2 ^ 32\<close> entries, as every
  JavaScript array has.
\<close>

theorem substitutePlaceholders_tokens:
  "(\<not> js_includes s m \<longrightarrow> substitutePlaceholders m s exprs = s)
   \<and> (js_includes s m \<longrightarrow>
        substitutePlaceholders m s exprs
          = js_join (map (substitute_token m exprs) (js_split s '' '')) '' '')
   \<and> (\<not> js_includes val m \<longrightarrow> substitute_token m exprs val = val)
   \<and> substitute_token m None val = val
   \<and> (after_first m val = Some t \<longrightarrow> val = before_first m val @ m @ t)
   \<and> (after_first m val = Some ds \<and> c \<in> set m \<and> \<not> is_digit c \<and> all_digits 10 ds
        \<and> length es < 2 ^ 32 \<longrightarrow>
        substitute_token m (Some es) val =
          (if digits_value 10 ds < length es \<and> es ! digits_value 10 ds \<noteq> []
           then es ! digits_value 10 ds else val))
   \<and> (c \<in> set m \<and> \<not> is_digit c \<and> all_digits 10 ds \<and> length es < 2 ^ 32 \<longrightarrow>
        substitute_token m (Some es) (m @ ds) =
          (if digits_value 10 ds < length es \<and> es ! digits_value 10 ds \<noteq> []
           then es ! digits_value 10 ds else m @ ds))
   \<and> (CHR '' '' \<notin> set m \<and> c \<in> set m \<and> \<not> is_digit c \<and> 2 \<le> length m \<longrightarrow>
        substitutePlaceholders m (''a '' @ m @ ''0 b'') (Some [''${x}'']) = ''a ${x} b'')"
proof (intro conjI impI)
  assume "\<not> js_includes s m"
  then show "substitutePlaceholders m s exprs = s" by (rule substitutePlaceholders_fast_path)
next
  assume "js_includes s m"
  then show "substitutePlaceholders m s exprs
          = js_join (map (substitute_token m exprs) (js_split s '' '')) '' ''"
    by (rule substitutePlaceholders_map)
next
  assume "\<not> js_includes val m"
  then show "substitute_token m exprs val = val" by (rule substitute_token_without_marker)
next
  show "substitute_token m None val = val" by (rule substitute_token_no_table)
next
  assume "after_first m val = Some t"
  then show "val = before_first m val @ m @ t" by (rule after_first_decompose)
next
  assume a: "after_first m val = Some ds \<and> c \<in> set m \<and> \<not> is_digit c \<and> all_digits 10 ds
        \<and> length es < 2 ^ 32"
  have len: "length es \<le> 2 ^ 53" using a by simp
  show "substitute_token m (Some es) val =
          (if digits_value 10 ds < length es \<and> es ! digits_value 10 ds \<noteq> []
           then es ! digits_value 10 ds else val)"
    using substitute_token_after_first [of m val ds c es] a len by simp
next
  assume a: "c \<in> set m \<and> \<not> is_digit c \<and> all_digits 10 ds \<and> length es < 2 ^ 32"
  then have ne: "m \<noteq> []" by auto
  have len: "length es \<le> 2 ^ 53" using a by simp
  show "substitute_token m (Some es) (m @ ds) =
          (if digits_value 10 ds < length es \<and> es ! digits_value 10 ds \<noteq> []
           then es ! digits_value 10 ds else m @ ds)"
    using substitute_token_after_first [of m "m @ ds" ds c es] after_first_whole [OF ne] a len
    by simp
next
  assume "CHR '' '' \<notin> set m \<and> c \<in> set m \<and> \<not> is_digit c \<and> 2 \<le> length m"
  then show "substitutePlaceholders m (''a '' @ m @ ''0 b'') (Some [''${x}'']) = ''a ${x} b''"
    using example_general [of m c] by simp
qed

theorem substitutePlaceholders_tokens_witness:
  "substitutePlaceholders ''pcss-lin'' ''a pcss-lin0 b'' (Some [''${x}'']) = ''a ${x} b''
   \<and> substitutePlaceholders ''pcss-lin'' ''1px solid'' (Some [''${x}'']) = ''1px solid''
   \<and> substitute_token ''pcss-lin'' (Some [''${x}'']) ''pcss-lin7'' = ''pcss-lin7''
   \<and> substitute_token ''pcss-lin'' (Some [''${x}'']) ''repeat(pcss-lin0'' = ''${x}''"
  using substitutePlaceholders_tokens [where m = "''pcss-lin''" and s = "''1px solid''"
          and exprs = "Some [''${x}'']" and c = "CHR ''p''" and ds = "''7''"
          and es = "[''${x}'']" and val = "''pcss-lin7''" and t = "''7''"]
        substitutePlaceholders_tokens [where m = "''pcss-lin''" and s = "''1px solid''"
          and exprs = "Some [''${x}'']" and c = "CHR ''p''" and ds = "''0''"
          and es = "[''${x}'']" and val = "''repeat(pcss-lin0''" and t = "''0''"]
        plain_value p_not_digit digit_facts leading_text_facts
  by simp

text \<open>
  The claim as first worded keeps every token that is not the marker followed by an
  index. The routine does not look at what comes before the marker: in the value below
  the first token is replaced as a whole, its leading text with it.
\<close>

theorem substitutePlaceholders_leading_text_counterexample:
  "substitutePlaceholders ''pcss-lin'' ''calc(pcss-lin0 + 1px)'' (Some [''${x}''])
     = ''${x} + 1px)''
   \<and> claimed_substitutePlaceholders ''pcss-lin'' ''calc(pcss-lin0 + 1px)'' (Some [''${x}''])
       = ''calc(pcss-lin0 + 1px)''"
  by code_simp




text \<open>
  Claim C10. A placeholder whose index is valid and whose entry of the expression table is
  the empty string is not substituted: the token of the substitution routine, the comment
  and the property name of a declaration stay what they were (the comment goes to the
  generic printer), and with a table of empty strings only the routine and the value of a
  declaration return the text unchanged.
\<close>

theorem empty_expression_not_substituted:
  "(array_get es (Number_of (second (js_split val shortPlaceholderText))) = Some []
      \<longrightarrow> substitute_token shortPlaceholderText (Some es) val = val)
   \<and> (array_get es (Number_of (second (js_split (ntext node) '':''))) = Some []
      \<longrightarrow> comment builder G placeholderText (Some es) node s = super_comment G node s)
   \<and> (array_get es (Number_of (second (js_split (nprop node) placeholderText))) = Some []
      \<longrightarrow> decl_prop placeholderText (Some es) node = nprop node)
   \<and> ((\<forall>e\<in>set es. e = [])
      \<longrightarrow> substitutePlaceholders shortPlaceholderText v (Some es) = v
          \<and> decl_value G shortPlaceholderText (Some es) node = rawValue G node ''value'')
   \<and> (c \<in> set shortPlaceholderText \<and> \<not> is_digit c \<and> all_digits 10 ds \<and> length es < 2 ^ 32
        \<and> digits_value 10 ds < length es \<and> es ! digits_value 10 ds = []
      \<longrightarrow> substitute_token shortPlaceholderText (Some es) (shortPlaceholderText @ ds)
          = shortPlaceholderText @ ds)"
proof (intro conjI impI)
  assume "array_get es (Number_of (second (js_split val shortPlaceholderText))) = Some []"
  then show "substitute_token shortPlaceholderText (Some es) val = val"
    by (rule substitute_token_empty_entry)
next
  assume a: "array_get es (Number_of (second (js_split (ntext node) '':''))) = Some []"
  then have "Number_of (second (js_split (ntext node) '':'')) \<noteq> NaN"
    by (auto simp: array_get_def)
  then show "comment builder G placeholderText (Some es) node s = super_comment G node s"
    using a by (simp add: comment_def Let_def truthy_def)
next
  assume a: "array_get es (Number_of (second (js_split (nprop node) placeholderText))) = Some []"
  then show "decl_prop placeholderText (Some es) node = nprop node"
    by (simp add: decl_prop_def Let_def truthy_def)
next
  assume a: "\<forall>e\<in>set es. e = []"
  show "substitutePlaceholders shortPlaceholderText v (Some es) = v"
    using a by (rule substitutePlaceholders_all_empty)
  show "decl_value G shortPlaceholderText (Some es) node = rawValue G node ''value''"
    using substitutePlaceholders_all_empty [OF a] by (simp add: decl_value_def Let_def)
next
  assume a: "c \<in> set shortPlaceholderText \<and> \<not> is_digit c \<and> all_digits 10 ds
        \<and> length es < 2 ^ 32 \<and> digits_value 10 ds < length es \<and> es ! digits_value 10 ds = []"
  then have ne: "shortPlaceholderText \<noteq> []" by auto
  have len: "length es \<le> 2 ^ 53" using a by simp
  show "substitute_token shortPlaceholderText (Some es) (shortPlaceholderText @ ds)
          = shortPlaceholderText @ ds"
    using substitute_token_digits [of shortPlaceholderText "[]" c ds es] ne a len by simp
qed

theorem empty_expression_not_substituted_witness:
  "substitute_token ''pcss-lin'' (Some [[]]) ''pcss-lin0'' = ''pcss-lin0''
   \<and> comment record_call example_generic ''postcss-linaria'' (Some [[]])
       (Node Comment Map.empty ''postcss-linaria:0'' [] False None []) []
     = [(''/*postcss-linaria:0*/'',
         Some (Node Comment Map.empty ''postcss-linaria:0'' [] False None []), None)]
   \<and> decl_prop ''postcss-linaria'' (Some [[]])
       (Node Decl Map.empty [] ''postcss-linaria0'' False None []) = ''postcss-linaria0''
   \<and> substitutePlaceholders ''pcss-lin'' ''a pcss-lin0 b'' (Some [[]]) = ''a pcss-lin0 b''"
  using empty_expression_not_substituted [where es = "[[]]" and val = "''pcss-lin0''"
          and shortPlaceholderText = "''pcss-lin''" and placeholderText = "''postcss-linaria''"
          and builder = record_call and G = example_generic and s = "[]"
          and node = "Node Comment Map.empty ''postcss-linaria:0'' [] False None []"
          and v = "''a pcss-lin0 b''" and c = "CHR ''p''" and ds = "''0''"]
        empty_expression_not_substituted [where es = "[[]]" and val = "''pcss-lin0''"
          and shortPlaceholderText = "''pcss-lin''" and placeholderText = "''postcss-linaria''"
          and builder = record_call and G = example_generic and s = "[]"
          and node = "Node Decl Map.empty [] ''postcss-linaria0'' False None []"
          and v = "''a pcss-lin0 b''" and c = "CHR ''p''" and ds = "''0''"]
        empty_entry_lookups
  by (simp add: record_call_def example_generic_def)

section \<open>The comment handler\<close>

lemma placeholderPattern_test_iff:
  "placeholderPattern_test M t \<longleftrightarrow> (\<exists>ds. t = M @ '':'' @ ds \<and> all_digits 10 ds)"
proof
  assume a: "placeholderPattern_test M t"
  then have t: "take (length M) t = M" and ne: "drop (length M) t \<noteq> []"
    and c: "hd (drop (length M) t) = CHR '':''"
    and ds: "tl (drop (length M) t) \<noteq> []" "list_all is_digit (tl (drop (length M) t))"
    by (simp_all add: placeholderPattern_test_def Let_def)
  have "t = take (length M) t @ drop (length M) t" by simp
  also have "drop (length M) t = hd (drop (length M) t) # tl (drop (length M) t)"
    using ne by simp
  finally have "t = M @ '':'' @ tl (drop (length M) t)" using t c by simp
  then show "\<exists>ds. t = M @ '':'' @ ds \<and> all_digits 10 ds"
    using ds by (auto simp: all_digits_is_digit)
next
  assume "\<exists>ds. t = M @ '':'' @ ds \<and> all_digits 10 ds"
  then show "placeholderPattern_test M t"
    by (auto simp: placeholderPattern_test_def all_digits_is_digit)
qed

lemma comment_index_string:
  assumes "CHR '':'' \<notin> set M" "all_digits 10 ds"
  shows "second (js_split (M @ '':'' @ ds) '':'') = Some ds"
  using index_string_of_placeholder [of "'':''" M "CHR '':''" ds] assms colon_not_digit
  by (simp add: all_digits_is_digit)

text \<open>
  Claim C5. For a marker without a colon (and, as the pattern is read above, without a
  character that has a meaning in a regular expression) and a table of fewer than
  \<open>2 ^ 32\<close> entries:
  when the text of the comment is the marker, a colon and decimal digits that are the
  index of a non-empty entry of the table, the handler calls the builder once with the text
  of that entry as it is, for the comment node, and prints no delimiters. In every other
  case (another text, no table, an index outside the table, an empty entry) the handler is
  the generic printer's comment handler.
\<close>

theorem comment_placeholder:
  assumes "CHR '':'' \<notin> set placeholderText"
    and "\<forall>es. expressions = Some es \<longrightarrow> length es < 2 ^ 32"
  shows "(ntext node = placeholderText @ '':'' @ ds \<and> all_digits 10 ds
          \<and> expressions = Some es \<and> digits_value 10 ds < length es
          \<and> es ! digits_value 10 ds \<noteq> []
          \<longrightarrow> comment builder G placeholderText expressions node s
              = builder (es ! digits_value 10 ds) (Some node) None s)
         \<and> (\<not> (\<exists>ds es. ntext node = placeholderText @ '':'' @ ds \<and> all_digits 10 ds
                   \<and> expressions = Some es \<and> digits_value 10 ds < length es
                   \<and> es ! digits_value 10 ds \<noteq> [])
          \<longrightarrow> comment builder G placeholderText expressions node s = super_comment G node s)"
proof (cases "placeholderPattern_test placeholderText (ntext node)")
  case False
  then have "\<not> (\<exists>ds. ntext node = placeholderText @ '':'' @ ds \<and> all_digits 10 ds)"
    by (simp add: placeholderPattern_test_iff)
  moreover have "comment builder G placeholderText expressions node s = super_comment G node s"
    using False by (simp add: comment_def)
  ultimately show ?thesis by blast
next
  case True
  then obtain d where d: "ntext node = placeholderText @ '':'' @ d" "all_digits 10 d"
    using placeholderPattern_test_iff by blast
  have idx: "second (js_split (ntext node) '':'') = Some d"
    using comment_index_string [OF assms(1) d(2)] d(1) by simp
  have same: "ds = d" if "ntext node = placeholderText @ '':'' @ ds" for ds
    using that d(1) by simp
  show ?thesis
  proof (cases expressions)
    case None
    then have "comment builder G placeholderText expressions node s = super_comment G node s"
      using True by (simp add: comment_def Let_def)
    then show ?thesis using None by simp
  next
    case (Some es')
    then have len: "length es' \<le> 2 ^ 53" using assms(2) by auto
    have look: "array_get es' (StringToNumber d)
                = (if digits_value 10 d < length es' then Some (es' ! digits_value 10 d) else None)"
      using d(2) len by (simp add: StringToNumber_digits array_get_to_double)
    have nn: "StringToNumber d \<noteq> NaN"
      using d(2) by (simp add: StringToNumber_digits to_double_not_NaN)
    have eq: "comment builder G placeholderText expressions node s
                = (if digits_value 10 d < length es' \<and> es' ! digits_value 10 d \<noteq> []
                   then builder (es' ! digits_value 10 d) (Some node) None s
                   else super_comment G node s)"
      using True Some idx nn look by (simp add: comment_def Let_def Number_of_def truthy_def)
    show ?thesis
    proof (intro conjI impI)
      assume h: "ntext node = placeholderText @ '':'' @ ds \<and> all_digits 10 ds
          \<and> expressions = Some es \<and> digits_value 10 ds < length es
          \<and> es ! digits_value 10 ds \<noteq> []"
      then have "ds = d" using same by blast
      moreover have "es = es'" using h Some by simp
      ultimately show "comment builder G placeholderText expressions node s
              = builder (es ! digits_value 10 ds) (Some node) None s"
        using eq h by simp
    next
      assume n: "\<not> (\<exists>ds es. ntext node = placeholderText @ '':'' @ ds \<and> all_digits 10 ds
                   \<and> expressions = Some es \<and> digits_value 10 ds < length es
                   \<and> es ! digits_value 10 ds \<noteq> [])"
      have "\<not> (digits_value 10 d < length es' \<and> es' ! digits_value 10 d \<noteq> [])"
        using n d Some by blast
      then show "comment builder G placeholderText expressions node s = super_comment G node s"
        using eq by (simp only: if_False)
    qed
  qed
qed

theorem comment_placeholder_witness:
  "comment record_call example_generic ''postcss-linaria'' (Some [''${a}'', ''${b}''])
     (Node Comment Map.empty ''postcss-linaria:1'' [] False None []) []
     = [(''${b}'', Some (Node Comment Map.empty ''postcss-linaria:1'' [] False None []), None)]
   \<and> comment record_call example_generic ''postcss-linaria'' (Some [''${a}'', ''${b}''])
       (Node Comment Map.empty ''postcss-linaria:5'' [] False None []) []
     = [(''/*postcss-linaria:5*/'',
         Some (Node Comment Map.empty ''postcss-linaria:5'' [] False None []), None)]"
  using comment_placeholder [where placeholderText = "''postcss-linaria''"
          and expressions = "Some [''${a}'', ''${b}'']" and es = "[''${a}'', ''${b}'']"
          and ds = "''1''" and builder = record_call and G = example_generic and s = "[]"
          and node = "Node Comment Map.empty ''postcss-linaria:1'' [] False None []"]
        comment_placeholder [where placeholderText = "''postcss-linaria''"
          and expressions = "Some [''${a}'', ''${b}'']" and es = "[''${a}'', ''${b}'']"
          and ds = "''5''" and builder = record_call and G = example_generic and s = "[]"
          and node = "Node Comment Map.empty ''postcss-linaria:5'' [] False None []"]
        digit_facts
  by (simp add: record_call_def example_generic_def)

section \<open>The declaration handler\<close>

lemma toUpperCase_v: "toUpperCase CHR ''v'' = Some ''V''"
  by code_simp

lemma linariaProp_names:
  "linariaProp ''before'' = ''linariaBefore''"
  "linariaProp ''after'' = ''linariaAfter''"
  "linariaProp ''between'' = ''linariaBetween''"
  "linariaProp ''value'' = ''linariaValue''"
  "linariaProp ''selector'' = ''linariaSelector''"
  by code_simp+

lemma decl_value_eq:
  "decl_value G m es node = substitutePlaceholders m (rawValue G node ''value'') es"
  by (simp add: decl_value_def Let_def substitutePlaceholders_fast_path)

lemma example_value:
  "substitutePlaceholders ''pcss-lin'' ''a pcss-lin0 b'' (Some [''${x}'', ''color'']) = ''a ${x} b''"
  by code_simp

lemma decl_prop_without_marker:
  "\<not> js_includes (nprop node) M \<Longrightarrow> decl_prop M exprs node = nprop node"
  by (simp add: decl_prop_def)

lemma decl_prop_no_table: "decl_prop M None node = nprop node"
  by (simp add: decl_prop_def Let_def)

lemma decl_prop_after_first:
  assumes "after_first M (nprop node) = Some ds" "c \<in> set M" "\<not> is_digit c"
    "all_digits 10 ds" "length es \<le> 2 ^ 53"
  shows "decl_prop M (Some es) node
         = (if digits_value 10 ds < length es \<and> es ! digits_value 10 ds \<noteq> []
            then es ! digits_value 10 ds else nprop node)"
proof -
  have inc: "js_includes (nprop node) M"
    using assms(1) after_first_None_iff [of M "nprop node"] by simp
  have idx: "second (js_split (nprop node) M) = Some ds"
    using index_string_after_first [OF assms(1-3)] assms(4) by (simp add: all_digits_is_digit)
  have nn: "StringToNumber ds \<noteq> NaN"
    using assms(4) by (simp add: StringToNumber_digits to_double_not_NaN)
  have look: "array_get es (StringToNumber ds)
              = (if digits_value 10 ds < length es then Some (es ! digits_value 10 ds) else None)"
    using assms(4,5) by (simp add: StringToNumber_digits array_get_to_double)
  show ?thesis
    by (simp add: decl_prop_def inc idx Let_def Number_of_def nn look truthy_def)
qed

lemma decl_prop_changes:
  assumes "decl_prop M exprs node \<noteq> nprop node"
  shows "js_includes (nprop node) M \<and> (\<exists>es. exprs = Some es \<and> decl_prop M exprs node \<in> set es)"
proof -
  have inc: "js_includes (nprop node) M"
    using assms decl_prop_without_marker by blast
  obtain es where es: "exprs = Some es"
    using assms decl_prop_no_table by (cases exprs) auto
  let ?n = "Number_of (second (js_split (nprop node) M))"
  have t: "truthy (array_get es ?n)"
  proof (rule ccontr)
    assume "\<not> truthy (array_get es ?n)"
    then have "decl_prop M exprs node = nprop node"
      using es inc by (simp add: decl_prop_def Let_def)
    then show False using assms by simp
  qed
  then obtain e where e: "array_get es ?n = Some e"
    by (auto simp: truthy_def split: option.splits)
  have nn: "?n \<noteq> NaN" using e by (auto simp: array_get_def)
  have "decl_prop M exprs node = e"
    using es inc t e nn by (simp add: decl_prop_def Let_def)
  then show ?thesis using inc es e array_get_in_set by blast
qed

text \<open>
  Claim C3. The declaration handler makes one call of the builder, for the declaration node
  and with no boundary mark. Its text is the property name after the substitution of a
  full placeholder, then the resolved \<^verbatim>\<open>between\<close> raw, then the raw value after the
  substitution of short placeholders; when the node is flagged important, then the raw
  \<^verbatim>\<open>important\<close> text if the node has one (a non-empty text, as the source tests it) and
  the default \<^verbatim>\<open> !important\<close> otherwise; and a semicolon at the end exactly when the
  flag \<^verbatim>\<open>semicolon\<close> is set. The property name is replaced, as a whole, by an entry of
  the table when its first occurrence of the full marker is followed, up to the end of the
  name, by decimal digits that are the index of a non-empty entry; it is kept when the
  digits index no entry or an empty one, when the name does not contain the marker and
  when there is no table, and a name that is changed contains the marker and has become
  an entry of the table. The value is what the shared routine makes of the raw value.
\<close>

theorem decl_emits_one_fragment:
  "decl builder G placeholderText shortPlaceholderText expressions node semicolon s =
     builder (decl_prop placeholderText expressions node
              @ raw G node ''between'' (Some ''colon'')
              @ substitutePlaceholders shortPlaceholderText (rawValue G node ''value'') expressions
              @ (if important node
                 then (case raws node ''important'' of
                         None \<Rightarrow> '' !important''
                       | Some t \<Rightarrow> if t \<noteq> [] then t else '' !important'')
                 else [])
              @ (if semicolon then '';'' else []))
       (Some node) None s
   \<and> (after_first placeholderText (nprop node) = Some ds \<and> c \<in> set placeholderText
        \<and> \<not> is_digit c \<and> all_digits 10 ds \<and> length es < 2 ^ 32
      \<longrightarrow> decl_prop placeholderText (Some es) node
          = (if digits_value 10 ds < length es \<and> es ! digits_value 10 ds \<noteq> []
             then es ! digits_value 10 ds else nprop node))
   \<and> (\<not> js_includes (nprop node) placeholderText
      \<longrightarrow> decl_prop placeholderText expressions node = nprop node)
   \<and> decl_prop placeholderText None node = nprop node
   \<and> (decl_prop placeholderText expressions node \<noteq> nprop node
      \<longrightarrow> js_includes (nprop node) placeholderText
          \<and> (\<exists>es. expressions = Some es \<and> decl_prop placeholderText expressions node \<in> set es))"
proof (intro conjI impI)
  show "decl builder G placeholderText shortPlaceholderText expressions node semicolon s =
     builder (decl_prop placeholderText expressions node
              @ raw G node ''between'' (Some ''colon'')
              @ substitutePlaceholders shortPlaceholderText (rawValue G node ''value'') expressions
              @ (if important node
                 then (case raws node ''important'' of
                         None \<Rightarrow> '' !important''
                       | Some t \<Rightarrow> if t \<noteq> [] then t else '' !important'')
                 else [])
              @ (if semicolon then '';'' else []))
       (Some node) None s"
    by (simp add: decl_def Let_def decl_value_eq truthy_def split: option.splits)
next
  assume a: "after_first placeholderText (nprop node) = Some ds \<and> c \<in> set placeholderText
        \<and> \<not> is_digit c \<and> all_digits 10 ds \<and> length es < 2 ^ 32"
  have len: "length es \<le> 2 ^ 53" using a by simp
  show "decl_prop placeholderText (Some es) node
          = (if digits_value 10 ds < length es \<and> es ! digits_value 10 ds \<noteq> []
             then es ! digits_value 10 ds else nprop node)"
    using decl_prop_after_first [of placeholderText node ds c es] a len by simp
next
  assume "\<not> js_includes (nprop node) placeholderText"
  then show "decl_prop placeholderText expressions node = nprop node"
    by (rule decl_prop_without_marker)
next
  show "decl_prop placeholderText None node = nprop node" by (rule decl_prop_no_table)
next
  assume ch: "decl_prop placeholderText expressions node \<noteq> nprop node"
  show "js_includes (nprop node) placeholderText"
    using decl_prop_changes [OF ch] by simp
  show "\<exists>es. expressions = Some es \<and> decl_prop placeholderText expressions node \<in> set es"
    using decl_prop_changes [OF ch] by simp
qed

theorem decl_emits_one_fragment_witness:
  "decl record_call
     \<lparr>super_comment = (\<lambda>n s. s), super_document = (\<lambda>n s. s), body = (\<lambda>n s. s),
      super_raw = (\<lambda>n own detect. '': ''), super_rawValue = (\<lambda>n p. ''a pcss-lin0 b'')\<rparr>
     ''postcss-linaria'' ''pcss-lin'' (Some [''${x}'', ''color''])
     (Node Decl [''important'' \<mapsto> JString '' ! important''] [] ''postcss-linaria1'' True None [])
     True []
   = [(''color: a ${x} b ! important;'',
       Some (Node Decl [''important'' \<mapsto> JString '' ! important''] [] ''postcss-linaria1'' True
               None []),
       None)]
   \<and> decl_prop ''postcss-linaria'' (Some [''${x}'', ''color''])
       (Node Decl Map.empty [] ''color'' False None []) = ''color''"
  using decl_emits_one_fragment [where builder = record_call
      and G = "\<lparr>super_comment = (\<lambda>n s. s), super_document = (\<lambda>n s. s), body = (\<lambda>n s. s),
        super_raw = (\<lambda>n own detect. '': ''), super_rawValue = (\<lambda>n p. ''a pcss-lin0 b'')\<rparr>"
      and placeholderText = "''postcss-linaria''" and shortPlaceholderText = "''pcss-lin''"
      and expressions = "Some [''${x}'', ''color'']" and es = "[''${x}'', ''color'']"
      and node = "Node Decl [''important'' \<mapsto> JString '' ! important''] [] ''postcss-linaria1''
                    True None []"
      and semicolon = True and s = "[]" and c = "CHR ''p''" and ds = "''1''"]
    decl_emits_one_fragment [where builder = record_call
      and G = "\<lparr>super_comment = (\<lambda>n s. s), super_document = (\<lambda>n s. s), body = (\<lambda>n s. s),
        super_raw = (\<lambda>n own detect. '': ''), super_rawValue = (\<lambda>n p. ''a pcss-lin0 b'')\<rparr>"
      and placeholderText = "''postcss-linaria''" and shortPlaceholderText = "''pcss-lin''"
      and expressions = "Some [''${x}'', ''color'']" and es = "[''${x}'', ''color'']"
      and node = "Node Decl Map.empty [] ''color'' False None []"
      and semicolon = True and s = "[]" and c = "CHR ''p''" and ds = "''1''"]
    example_value leading_text_facts p_not_digit digit_facts plain_property
  by (simp add: record_call_def raw_def raws_def rawValue_def truthy_def linariaProp_names
      toUpperCase_v)

text \<open>
  A property name in which a colon stands between the marker and the digits is not of
  that form: the text after the marker is not numeric, and the name is kept.
\<close>

lemma decl_prop_colon_kept:
  "decl_prop ''postcss-linaria'' (Some [''${a}'', ''${b}'', ''color''])
     (Node Decl Map.empty [] ''postcss-linaria:2'' False None []) = ''postcss-linaria:2''"
  by code_simp

section \<open>Raw slots and raw values\<close>


text \<open>
  Claim C6. The resolution of a raw slot returns the override exactly when the slot is
  \<^verbatim>\<open>before\<close>, \<^verbatim>\<open>after\<close> or \<^verbatim>\<open>between\<close>, the node's own raw for that slot is a non-empty
  text and the override of the matching name (\<^verbatim>\<open>linariaBefore\<close>, \<^verbatim>\<open>linariaAfter\<close>,
  \<^verbatim>\<open>linariaBetween\<close>) is a non-empty text too. In every other case, so also when the raw
  is empty or missing and an override is there, the result is the generic printer's.
\<close>

theorem raw_override:
  "raw G node own detect =
     (if own \<in> {''before'', ''after'', ''between''}
         \<and> truthy (raws node own) \<and> truthy (raws node (linariaProp own))
      then the (raws node (linariaProp own))
      else super_raw G node own detect)"
proof -
  consider (before) "own = ''before''" | (after) "own = ''after''" | (between) "own = ''between''"
    | (other) "own \<noteq> ''before''" "own \<noteq> ''after''" "own \<noteq> ''between''"
    by blast
  then show ?thesis
  proof cases
    case before
    then show ?thesis by (simp add: raw_def linariaProp_names(1))
  next
    case after
    then show ?thesis by (simp add: raw_def linariaProp_names(2))
  next
    case between
    then show ?thesis by (simp add: raw_def linariaProp_names(3))
  next
    case other
    then show ?thesis by (simp add: raw_def)
  qed
qed

theorem raw_override_witness:
  "raw example_generic (Node Decl [''before'' \<mapsto> JString '' '', ''linariaBefore'' \<mapsto> JString [CHR 0x0A, CHR '' '', CHR '' '']]
            [] [] False None []) ''before'' None = [CHR 0x0A, CHR '' '', CHR '' '']
   \<and> raw example_generic (Node Decl [''before'' \<mapsto> JString [], ''linariaBefore'' \<mapsto> JString [CHR 0x0A, CHR '' '', CHR '' '']]
            [] [] False None []) ''before'' None
       = super_raw example_generic (Node Decl [''before'' \<mapsto> JString [], ''linariaBefore'' \<mapsto> JString [CHR 0x0A, CHR '' '', CHR '' '']]
            [] [] False None []) ''before'' None"
  using raw_override [of example_generic "Node Decl [''before'' \<mapsto> JString '' '', ''linariaBefore'' \<mapsto> JString [CHR 0x0A, CHR '' '', CHR '' '']]
            [] [] False None []" "''before''" None]
        raw_override [of example_generic "Node Decl [''before'' \<mapsto> JString [], ''linariaBefore'' \<mapsto> JString [CHR 0x0A, CHR '' '', CHR '' '']]
            [] [] False None []" "''before''" None]
  by (simp add: truthy_def raws_def linariaProp_names)

lemma toUpperCase_letters:
  "toUpperCase (CHR 0xE9) = Some [CHR 0xC9]" "toUpperCase (CHR 0xDF) = Some ''SS''"
  "toUpperCase (CHR 0xF7) = Some [CHR 0xF7]" "toUpperCase (CHR 0xB5) = None"
  "toUpperCase (CHR 0xFF) = None" "toUpperCase CHR ''s'' = Some ''S''"
  "toUpperCase CHR ''P'' = Some ''P''"
  by code_simp+

text \<open>
  Claim C7. The resolution of a raw value builds the name of the override slot from the
  prefix \<^verbatim>\<open>linaria\<close>, the upper case of the first character of the property name and the
  rest of the name (\<^verbatim>\<open>value\<close> gives \<^verbatim>\<open>linariaValue\<close>; for the empty name the slot is
  \<^verbatim>\<open>linariaundefined\<close>). When the node's raws have that slot the result is the text form
  of its value, whatever the value: the text itself, also the empty text, and the words
  \<^verbatim>\<open>undefined\<close> and \<^verbatim>\<open>null\<close> for these two values, which like the empty text are falsy.
  Only without the slot is the result the generic printer's raw value; that is also so
  for the two first characters whose upper case is outside the strings of this model.
\<close>

theorem rawValue_presence:
  "(toUpperCase c = Some u \<longrightarrow>
      linariaProp (c # cs) = ''linaria'' @ u @ cs
      \<and> rawValue G node (c # cs) =
          (case raw_values node (''linaria'' @ u @ cs) of
             Some v \<Rightarrow> ToString v
           | None \<Rightarrow> super_rawValue G node (c # cs)))
   \<and> rawValue G node [] =
       (case raw_values node ''linariaundefined'' of
          Some v \<Rightarrow> ToString v
        | None \<Rightarrow> super_rawValue G node [])
   \<and> (toUpperCase c = None \<longrightarrow> rawValue G node (c # cs) = super_rawValue G node (c # cs))
   \<and> toUpperCase CHR ''v'' = Some ''V''
   \<and> linariaProp ''value'' = ''linariaValue''
   \<and> (raw_values node ''linariaValue'' = Some v \<longrightarrow> rawValue G node ''value'' = ToString v)
   \<and> ToString (JString t) = t \<and> ToString JUndefined = ''undefined'' \<and> ToString JNull = ''null''"
proof (intro conjI impI)
  assume u: "toUpperCase c = Some u"
  show "linariaProp (c # cs) = ''linaria'' @ u @ cs"
    using u by (simp add: linariaProp_def)
  then show "rawValue G node (c # cs) =
          (case raw_values node (''linaria'' @ u @ cs) of
             Some v \<Rightarrow> ToString v
           | None \<Rightarrow> super_rawValue G node (c # cs))"
    using u by (simp add: rawValue_def)
next
  show "rawValue G node [] =
       (case raw_values node ''linariaundefined'' of
          Some v \<Rightarrow> ToString v
        | None \<Rightarrow> super_rawValue G node [])"
    by (simp add: rawValue_def linariaProp_def)
next
  assume "toUpperCase c = None"
  then show "rawValue G node (c # cs) = super_rawValue G node (c # cs)"
    by (simp add: rawValue_def)
next
  show "toUpperCase CHR ''v'' = Some ''V''" by (rule toUpperCase_v)
next
  show "linariaProp ''value'' = ''linariaValue''" by (rule linariaProp_names(4))
next
  assume "raw_values node ''linariaValue'' = Some v"
  then show "rawValue G node ''value'' = ToString v"
    by (simp add: rawValue_def linariaProp_names(4) toUpperCase_v)
qed simp_all

theorem rawValue_presence_witness:
  "rawValue
     \<lparr>super_comment = (\<lambda>n (s::fragment list). s), super_document = (\<lambda>n s. s), body = (\<lambda>n s. s),
      super_raw = (\<lambda>n own detect. []), super_rawValue = (\<lambda>n p. ''red'')\<rparr>
     (Node Decl [''linariaValue'' \<mapsto> JString []] [] [] False None []) ''value'' = []
   \<and> rawValue
       \<lparr>super_comment = (\<lambda>n (s::fragment list). s), super_document = (\<lambda>n s. s), body = (\<lambda>n s. s),
        super_raw = (\<lambda>n own detect. []), super_rawValue = (\<lambda>n p. ''red'')\<rparr>
       (Node Decl [''linariaValue'' \<mapsto> JUndefined] [] [] False None []) ''value'' = ''undefined''
   \<and> rawValue
       \<lparr>super_comment = (\<lambda>n (s::fragment list). s), super_document = (\<lambda>n s. s), body = (\<lambda>n s. s),
        super_raw = (\<lambda>n own detect. []), super_rawValue = (\<lambda>n p. ''red'')\<rparr>
       (Node Decl Map.empty [] [] False None []) ''value'' = ''red''"
  using rawValue_presence [where c = "CHR ''v''" and u = "''V''" and cs = "''alue''"
          and v = "JString []" and t = "[]"
          and node = "Node Decl [''linariaValue'' \<mapsto> JString []] [] [] False None []"
          and G = "\<lparr>super_comment = (\<lambda>n (s::fragment list). s), super_document = (\<lambda>n s. s), body = (\<lambda>n s. s),
            super_raw = (\<lambda>n own detect. []), super_rawValue = (\<lambda>n p. ''red'')\<rparr>"]
        rawValue_presence [where c = "CHR ''v''" and u = "''V''" and cs = "''alue''"
          and v = "JUndefined" and t = "[]"
          and node = "Node Decl [''linariaValue'' \<mapsto> JUndefined] [] [] False None []"
          and G = "\<lparr>super_comment = (\<lambda>n (s::fragment list). s), super_document = (\<lambda>n s. s), body = (\<lambda>n s. s),
            super_raw = (\<lambda>n own detect. []), super_rawValue = (\<lambda>n p. ''red'')\<rparr>"]
        rawValue_presence [where c = "CHR ''v''" and u = "''V''" and cs = "''alue''"
          and v = "JUndefined" and t = "[]"
          and node = "Node Decl Map.empty [] [] False None []"
          and G = "\<lparr>super_comment = (\<lambda>n (s::fragment list). s), super_document = (\<lambda>n s. s), body = (\<lambda>n s. s),
            super_raw = (\<lambda>n own detect. []), super_rawValue = (\<lambda>n p. ''red'')\<rparr>"]
  by (simp add: toUpperCase_v)

section \<open>The root and document handlers\<close>

text \<open>
  Claim C8. The root handler emits, in this order: the raw \<^verbatim>\<open>codeBefore\<close> (the empty
  text when the node has none) for the node with the start mark; the generic walk over
  the body; the trailing text, which is the override \<^verbatim>\<open>linariaAfter\<close> whenever the node
  has it and the raw \<^verbatim>\<open>after\<close> otherwise, emitted with no node when it is not empty; and
  the raw \<^verbatim>\<open>codeAfter\<close> (the empty text when the node has none) for the node with the end
  mark.
\<close>

theorem root_emits:
  "root_handler builder G node s =
     builder (case raws node ''codeAfter'' of None \<Rightarrow> [] | Some t \<Rightarrow> t) (Some node) (Some End)
       ((case (case raws node ''linariaAfter'' of None \<Rightarrow> raws node ''after'' | Some t \<Rightarrow> Some t) of
           None \<Rightarrow> (\<lambda>s'. s')
         | Some t \<Rightarrow> if t \<noteq> [] then builder t None None else (\<lambda>s'. s'))
          (body G node
             (builder (case raws node ''codeBefore'' of None \<Rightarrow> [] | Some t \<Rightarrow> t)
                (Some node) (Some Start) s)))"
  by (simp add: root_handler_def Let_def truthy_def split: option.splits)

theorem root_emits_witness:
  "root_handler record_call
     \<lparr>super_comment = (\<lambda>n s. s), super_document = (\<lambda>n s. s),
      body = (\<lambda>n s. s @ [(''BODY'', None, None)]),
      super_raw = (\<lambda>n own detect. []), super_rawValue = (\<lambda>n p. [])\<rparr>
     (Node Root [''codeBefore'' \<mapsto> JString ''css`'', ''after'' \<mapsto> JString ''A'', ''linariaAfter'' \<mapsto> JString ''LA'']
        [] [] False None []) []
   = [(''css`'', Some (Node Root [''codeBefore'' \<mapsto> JString ''css`'', ''after'' \<mapsto> JString ''A'', ''linariaAfter'' \<mapsto> JString ''LA'']
        [] [] False None []), Some Start),
      (''BODY'', None, None),
      (''LA'', None, None),
      ([], Some (Node Root [''codeBefore'' \<mapsto> JString ''css`'', ''after'' \<mapsto> JString ''A'', ''linariaAfter'' \<mapsto> JString ''LA'']
        [] [] False None []), Some End)]"
  using root_emits [of record_call
     "\<lparr>super_comment = (\<lambda>n s. s), super_document = (\<lambda>n s. s),
      body = (\<lambda>n s. s @ [(''BODY'', None, None)]),
      super_raw = (\<lambda>n own detect. []), super_rawValue = (\<lambda>n p. [])\<rparr>"
     "Node Root [''codeBefore'' \<mapsto> JString ''css`'', ''after'' \<mapsto> JString ''A'', ''linariaAfter'' \<mapsto> JString ''LA'']
        [] [] False None []" "[]"]
  by (simp add: record_call_def raws_def)

text \<open>
  Claim C9. For a document without children the document handler emits, with no node,
  the text the parser was given, which may be empty, and the empty text when the node has
  no source; for a document with a child it is the generic printer's document walk.
\<close>

theorem document_emits:
  "document builder G node s =
     (if nodes node = []
      then builder (case source node of None \<Rightarrow> [] | Some src \<Rightarrow> css (input src)) None None s
      else super_document G node s)"
  by (simp add: document_def)

theorem document_emits_witness:
  "document record_call example_generic (Node Document Map.empty [] [] False (Some \<lparr>input = \<lparr>css = ''const a = 1;''\<rparr>\<rparr>) []) []
     = [(''const a = 1;'', None, None)]
   \<and> document record_call example_generic (Node Document Map.empty [] [] False (Some \<lparr>input = \<lparr>css = []\<rparr>\<rparr>) []) []
     = [([], None, None)]
   \<and> document record_call example_generic (Node Document Map.empty [] [] False None []) [] = [([], None, None)]
   \<and> document record_call example_generic (Node Document Map.empty [] [] False None
         [Node Root Map.empty [] [] False None []]) []
     = super_document example_generic (Node Document Map.empty [] [] False None
         [Node Root Map.empty [] [] False None []]) []"
  using document_emits [of record_call example_generic "Node Document Map.empty [] [] False (Some \<lparr>input = \<lparr>css = ''const a = 1;''\<rparr>\<rparr>) []" "[]"]
        document_emits [of record_call example_generic "Node Document Map.empty [] [] False (Some \<lparr>input = \<lparr>css = []\<rparr>\<rparr>) []" "[]"]
        document_emits [of record_call example_generic "Node Document Map.empty [] [] False None []" "[]"]
        document_emits [of record_call example_generic "Node Document Map.empty [] [] False None
         [Node Root Map.empty [] [] False None []]" "[]"]
  by (simp add: record_call_def)

end
